theory Spec2Isabelle
  imports Complex_Main
begin

section \<open>The claim service of Stark-Insured-Backend\<close>

text \<open>
  A shallow embedding of \<^verbatim>\<open>src/claim/claim.service.ts\<close> (class \<^verbatim>\<open>ClaimService\<close>).
  The service is a NestJS provider whose methods read and write a TypeORM repository of
  claims and call four collaborators: the fraud detection service, the oracle service,
  the notification service and the user service.

  Conventions of the model:
  \<^item> every method takes the world (repository, users table, scheduled background tasks and
    the trace of collaborator calls) and returns its outcome together with the new world;
  \<^item> a thrown exception is \<open>Inl\<close> of the outcome, a normal return is \<open>Inr\<close>;
  \<^item> each collaborator is a function of its arguments that returns or throws; within one
    method every collaborator is called at most once, so a function per call of the method
    covers every behaviour, and two calls of a method may be given different collaborators;
  \<^item> collaborators throw \<^verbatim>\<open>Error\<close> objects (the handlers read \<^verbatim>\<open>error.message\<close>);
  \<^item> the repository itself and the logger do not fail; log lines are not part of the world;
  \<^item> methods run one after another: no interleaving at the \<^verbatim>\<open>await\<close> points is modelled.

  The methods embedded are \<^verbatim>\<open>create\<close>, \<^verbatim>\<open>update\<close>, \<^verbatim>\<open>getClaimStats\<close>, \<^verbatim>\<open>processClaim\<close>,
  \<^verbatim>\<open>runFraudDetection\<close>, \<^verbatim>\<open>runFraudDetectionAsync\<close> and \<^verbatim>\<open>getFraudDetectionStatus\<close>; the
  queries \<^verbatim>\<open>findAll\<close>, \<^verbatim>\<open>findAllByUser\<close>, \<^verbatim>\<open>findOne\<close> and the method \<^verbatim>\<open>remove\<close> are left out.
\<close>

subsection \<open>Data\<close>

text \<open>\<^verbatim>\<open>enums/claim-status.enum\<close>: the four members the service names.\<close>

datatype ClaimStatus = PENDING | APPROVED | REJECTED | FLAGGED

text \<open>Exceptions: the two NestJS exceptions the service throws, a collaborator's error, and
  the runtime's \<^verbatim>\<open>TypeError\<close> for a property read on \<^verbatim>\<open>null\<close>.\<close>

datatype exn =
    NotFoundException string
  | ForbiddenException string
  | Error string
  | TypeError string

fun message :: "exn \<Rightarrow> string" where
  "message (NotFoundException m) = m"
| "message (ForbiddenException m) = m"
| "message (Error m) = m"
| "message (TypeError m) = m"

text \<open>The error taxonomy of the specification (section 7), and the class each exception of
  the code belongs to.\<close>

datatype spec_error = NotFound | InvalidState | Forbidden | CollaboratorFailure

fun classify :: "exn \<Rightarrow> spec_error" where
  "classify (NotFoundException m) = NotFound"
| "classify (ForbiddenException m) = Forbidden"
| "classify (Error m) = CollaboratorFailure"
| "classify (TypeError m) = CollaboratorFailure"

record User =
  user_id :: string
  email :: string

text \<open>The result of \<^verbatim>\<open>detectFraud\<close>; \<^verbatim>\<open>metadata\<close> and its fields are read with
  \<^verbatim>\<open>?.\<close>, so each may be absent.\<close>

record FraudMetadata =
  riskFactors :: "string list option"
  modelVersion :: "string option"
  timestamp :: "nat option"

record FraudDetectionResult =
  fr_isFraudulent :: bool
  confidenceScore :: rat
  reason :: string
  metadata :: "FraudMetadata option"

record FraudDetectionData =
  fd_reason :: string
  fd_riskFactors :: "string list option"
  fd_modelVersion :: "string option"
  detectedAt :: nat
  fd_metadata :: "FraudMetadata option"

record OracleData =
  verifiedAt :: nat
  verdict :: string

text \<open>The columns of the \<^verbatim>\<open>Claim\<close> entity that the service reads or writes. The \<^verbatim>\<open>user\<close>
  relation is not a column: it is the row of the users table with key \<^verbatim>\<open>userId\<close>.\<close>

record Claim =
  claim_id :: nat
  userId :: string
  description :: string
  status :: ClaimStatus
  fraudCheckCompleted :: bool
  isFraudulent :: bool
  fraudConfidenceScore :: "rat option"
  fraudDetectionData :: "FraudDetectionData option"
  oracleData :: "OracleData option"

record CreateClaimDto =
  dto_description :: string

text \<open>\<^verbatim>\<open>UpdateClaimDto\<close>: the two optional properties the service reads; \<open>None\<close> is an
  absent property.\<close>

record UpdateClaimDto =
  upd_status :: "ClaimStatus option"
  upd_description :: "string option"

datatype ClaimResponseDto = ClaimResponseDto Claim

record StatusNotification =
  sn_claim :: Claim
  sn_user :: "User option"
  previousStatus :: ClaimStatus
  newStatus :: ClaimStatus
  remarks :: "string option"

record ServiceStatus =
  healthy :: bool
  status_message :: "string option"

subsection \<open>Collaborators and the world\<close>

datatype event =
    DetectFraud Claim
  | VerifyClaim nat string
  | Save Claim
  | FindUser string
  | ClaimSubmittedNotification Claim User
  | ClaimStatusNotification StatusNotification
  | ClaimProcessingNotification Claim User string

record collaborators =
  detectFraud :: "Claim \<Rightarrow> exn + FraudDetectionResult"
  getServiceStatus :: "(exn + ServiceStatus) option"
  verifyClaim :: "nat \<Rightarrow> string \<Rightarrow> exn + string"
  sendClaimSubmittedNotification :: "Claim \<Rightarrow> User \<Rightarrow> exn + unit"
  sendClaimStatusNotification :: "StatusNotification \<Rightarrow> exn + unit"
  sendClaimProcessingNotification :: "Claim \<Rightarrow> User \<Rightarrow> string \<Rightarrow> exn + unit"
  userService_findOne :: "string \<Rightarrow> exn + User option"
  now :: nat

record world =
  claims :: "Claim list"
  users :: "(string \<times> User) list"
  next_id :: nat
  scheduled :: "nat list"
  trace :: "event list"

definition called :: "event \<Rightarrow> world \<Rightarrow> world" where
  "called e w = w\<lparr>trace := trace w @ [e]\<rparr>"

text \<open>\<^verbatim>\<open>claimRepository.findOne({ where: { id } })\<close>\<close>

definition findOne :: "nat \<Rightarrow> world \<Rightarrow> Claim option" where
  "findOne i w = find (\<lambda>c. claim_id c = i) (claims w)"

text \<open>The \<^verbatim>\<open>user\<close> relation of a loaded claim (\<^verbatim>\<open>relations: ['user']\<close>).\<close>

definition claim_user :: "world \<Rightarrow> Claim \<Rightarrow> User option" where
  "claim_user w c = map_of (users w) (userId c)"

text \<open>\<^verbatim>\<open>claimRepository.save(claim)\<close> of a claim that has its id: the row with that id is
  replaced, or the claim becomes a new row.\<close>

fun upsert :: "Claim \<Rightarrow> Claim list \<Rightarrow> Claim list" where
  "upsert c [] = [c]"
| "upsert c (r # rs) = (if claim_id r = claim_id c then c # rs else r # upsert c rs)"

definition save :: "Claim \<Rightarrow> world \<Rightarrow> world" where
  "save c w = called (Save c) (w\<lparr>claims := upsert c (claims w)\<rparr>)"

text \<open>The number of calls of the oracle so far.\<close>

definition oracle_calls :: "world \<Rightarrow> nat" where
  "oracle_calls w =
     length (filter (\<lambda>e. case e of VerifyClaim i d \<Rightarrow> True | _ \<Rightarrow> False) (trace w))"

text \<open>The number of \<^verbatim>\<open>claimRepository.save\<close> calls so far.\<close>

definition saves :: "world \<Rightarrow> nat" where
  "saves w = length (filter (\<lambda>e. case e of Save c \<Rightarrow> True | _ \<Rightarrow> False) (trace w))"

text \<open>\<^verbatim>\<open>claimRepository.count({ where })\<close>\<close>

definition count_where :: "(Claim \<Rightarrow> bool) \<Rightarrow> world \<Rightarrow> nat" where
  "count_where p w = length (filter p (claims w))"

text \<open>The decimal digits of a number, as a template literal prints it.\<close>

fun digits :: "nat \<Rightarrow> nat \<Rightarrow> string" where
  "digits 0 n = []"
| "digits (Suc k) n =
     (if n < 10 then [char_of (48 + n)]
      else digits k (n div 10) @ [char_of (48 + n mod 10)])"

definition string_of_nat :: "nat \<Rightarrow> string" where
  "string_of_nat n = digits (Suc n) n"

definition not_found :: "nat \<Rightarrow> exn" where
  "not_found i = NotFoundException (''Claim with ID '' @ string_of_nat i @ '' not found'')"

subsection \<open>create\<close>

text \<open>Modelled from the spec: the \<^verbatim>\<open>Claim\<close> entity and \<^verbatim>\<open>CreateClaimDto\<close> are not among the
  sources. A claim is created with the submitted description and owner, status
  \<open>Pending\<close>, \<open>fraudCheckCompleted = false\<close>, \<open>isFraudulent = false\<close> and no fraud or
  verdict data (specification, section 3, fields and lifecycle).\<close>

definition new_claim :: "CreateClaimDto \<Rightarrow> string \<Rightarrow> Claim" where
  "new_claim dto uid =
     \<lparr>claim_id = 0, userId = uid, description = dto_description dto, status = PENDING,
      fraudCheckCompleted = False, isFraudulent = False, fraudConfidenceScore = None,
      fraudDetectionData = None, oracleData = None\<rparr>"

text \<open>\<^verbatim>\<open>runFraudDetectionAsync\<close>: \<^verbatim>\<open>setTimeout(..., 0)\<close> queues the screening; it runs
  later, as \<open>runScheduled\<close> below.\<close>

definition runFraudDetectionAsync :: "nat \<Rightarrow> world \<Rightarrow> world" where
  "runFraudDetectionAsync claimId w = w\<lparr>scheduled := scheduled w @ [claimId]\<rparr>"

definition create :: "collaborators \<Rightarrow> CreateClaimDto \<Rightarrow> string \<Rightarrow> world
    \<Rightarrow> (exn + ClaimResponseDto) \<times> world" where
  "create env createClaimDto uid w =
     (let claim = new_claim createClaimDto uid;
          savedClaim = claim\<lparr>claim_id := next_id w\<rparr>;
          w1 = save savedClaim (w\<lparr>next_id := Suc (next_id w)\<rparr>);
          w2 = called (FindUser uid) w1;
          w3 = (case userService_findOne env uid of
                  Inl error \<Rightarrow> w2
                | Inr None \<Rightarrow> w2
                | Inr (Some user) \<Rightarrow>
                    (let w' = called (ClaimSubmittedNotification savedClaim user) w2
                     in case sendClaimSubmittedNotification env savedClaim user of
                          Inl error \<Rightarrow> w'
                        | Inr u \<Rightarrow> w'))
      in (Inr (ClaimResponseDto savedClaim), runFraudDetectionAsync (claim_id savedClaim) w3))"

subsection \<open>update\<close>

text \<open>\<^verbatim>\<open>Object.assign(claim, updateClaimDto)\<close>\<close>

definition assign_dto :: "Claim \<Rightarrow> UpdateClaimDto \<Rightarrow> Claim" where
  "assign_dto c dto =
     (let c1 = (case upd_status dto of None \<Rightarrow> c | Some s \<Rightarrow> c\<lparr>status := s\<rparr>)
      in case upd_description dto of None \<Rightarrow> c1 | Some d \<Rightarrow> c1\<lparr>description := d\<rparr>)"

definition update_remarks :: "UpdateClaimDto \<Rightarrow> string option" where
  "update_remarks dto =
     (case upd_description dto of
        None \<Rightarrow> None
      | Some d \<Rightarrow> if d = [] then None else Some (''Updated description: '' @ d))"

text \<open>The handler of a failed notification reads \<^verbatim>\<open>previousUser.id\<close> for its log line: with
  no user loaded that read throws a \<^verbatim>\<open>TypeError\<close> out of the handler.\<close>

definition update :: "collaborators \<Rightarrow> nat \<Rightarrow> UpdateClaimDto \<Rightarrow> string option \<Rightarrow> bool \<Rightarrow> world
    \<Rightarrow> (exn + ClaimResponseDto) \<times> world" where
  "update env i updateClaimDto uid isAdmin w =
     (case findOne i w of
        None \<Rightarrow> (Inl (not_found i), w)
      | Some claim \<Rightarrow>
          if \<not> isAdmin then
            (Inl (ForbiddenException ''Only administrators can update claims''), w)
          else
            (let prevStatus = status claim;
                 previousUser = claim_user w claim;
                 updatedClaim = assign_dto claim updateClaimDto;
                 w1 = save updatedClaim w
             in case upd_status updateClaimDto of
                  None \<Rightarrow> (Inr (ClaimResponseDto updatedClaim), w1)
                | Some s \<Rightarrow>
                    if prevStatus = s then (Inr (ClaimResponseDto updatedClaim), w1)
                    else
                      (let n = \<lparr>sn_claim = updatedClaim, sn_user = previousUser,
                                previousStatus = prevStatus, newStatus = s,
                                remarks = update_remarks updateClaimDto\<rparr>;
                           w2 = called (ClaimStatusNotification n) w1
                       in case sendClaimStatusNotification env n of
                            Inr u \<Rightarrow> (Inr (ClaimResponseDto updatedClaim), w2)
                          | Inl error \<Rightarrow>
                              (case previousUser of
                                 None \<Rightarrow>
                                   (Inl (TypeError ''Cannot read properties of null (reading 'id')''), w2)
                               | Some user \<Rightarrow> (Inr (ClaimResponseDto updatedClaim), w2)))))"

subsection \<open>getClaimStats\<close>

record ClaimStats =
  st_total :: nat
  st_pending :: nat
  st_approved :: nat
  st_rejected :: nat
  st_flagged :: nat
  st_fraudulent :: nat
  st_fraudCheckCompleted :: nat
  st_fraudCheckPending :: int

definition getClaimStats :: "world \<Rightarrow> ClaimStats" where
  "getClaimStats w =
     (let total = count_where (\<lambda>c. True) w;
          pending = count_where (\<lambda>c. status c = PENDING) w;
          approved = count_where (\<lambda>c. status c = APPROVED) w;
          rejected = count_where (\<lambda>c. status c = REJECTED) w;
          flagged = count_where (\<lambda>c. status c = FLAGGED) w;
          fraudulent = count_where (\<lambda>c. isFraudulent c = True) w;
          fraudCheckDone = count_where (\<lambda>c. fraudCheckCompleted c = True) w
      in \<lparr>st_total = total, st_pending = pending, st_approved = approved,
          st_rejected = rejected, st_flagged = flagged, st_fraudulent = fraudulent,
          st_fraudCheckCompleted = fraudCheckDone,
          st_fraudCheckPending = int total - int fraudCheckDone\<rparr>)"

subsection \<open>runFraudDetection\<close>

text \<open>Lines 314 to 331: the fields written from a screening result.\<close>

definition apply_fraud_result :: "nat \<Rightarrow> FraudDetectionResult \<Rightarrow> Claim \<Rightarrow> Claim" where
  "apply_fraud_result t fraudResult claim =
     (let c1 = claim\<lparr>fraudCheckCompleted := True,
                    isFraudulent := fr_isFraudulent fraudResult,
                    fraudConfidenceScore := Some (confidenceScore fraudResult),
                    fraudDetectionData := Some
                      \<lparr>fd_reason = reason fraudResult,
                       fd_riskFactors =
                         (case metadata fraudResult of None \<Rightarrow> None | Some m \<Rightarrow> riskFactors m),
                       fd_modelVersion =
                         (case metadata fraudResult of None \<Rightarrow> None | Some m \<Rightarrow> modelVersion m),
                       detectedAt =
                         (case metadata fraudResult of
                            None \<Rightarrow> t
                          | Some m \<Rightarrow> (case timestamp m of None \<Rightarrow> t | Some ts \<Rightarrow> ts)),
                       fd_metadata = metadata fraudResult\<rparr>\<rparr>
      in if fr_isFraudulent fraudResult then c1\<lparr>status := FLAGGED\<rparr> else c1)"

definition runFraudDetection :: "collaborators \<Rightarrow> nat \<Rightarrow> world \<Rightarrow> (exn + unit) \<times> world" where
  "runFraudDetection env claimId w =
     (case findOne claimId w of
        None \<Rightarrow> (Inl (not_found claimId), w)
      | Some claim \<Rightarrow>
          if fraudCheckCompleted claim then (Inr (), w)
          else
            (let w1 = called (DetectFraud claim) w
             in case detectFraud env claim of
                  Inr fraudResult \<Rightarrow>
                    (Inr (), save (apply_fraud_result (now env) fraudResult claim) w1)
                | Inl error \<Rightarrow>
                    (Inl error, save (claim\<lparr>fraudCheckCompleted := True\<rparr>) w1)))"

text \<open>The task queued by \<open>runFraudDetectionAsync\<close>: the screening with its error swallowed.\<close>

definition runScheduled :: "collaborators \<Rightarrow> world \<Rightarrow> world" where
  "runScheduled env w =
     (case scheduled w of
        [] \<Rightarrow> w
      | claimId # rest \<Rightarrow> snd (runFraudDetection env claimId (w\<lparr>scheduled := rest\<rparr>)))"

subsection \<open>processClaim\<close>

text \<open>Lines 240 to 245.\<close>

definition verdict_status :: "string \<Rightarrow> ClaimStatus" where
  "verdict_status v =
     (if v = ''approved'' then APPROVED else if v = ''rejected'' then REJECTED else PENDING)"

text \<open>Lines 214 to 223: the screening inside \<^verbatim>\<open>processClaim\<close> and the reload of the claim.\<close>

definition screen_and_reload :: "collaborators \<Rightarrow> nat \<Rightarrow> Claim \<Rightarrow> world \<Rightarrow> (exn + Claim) \<times> world" where
  "screen_and_reload env claimId claim w =
     (if \<not> fraudCheckCompleted claim then
        (case runFraudDetection env claimId w of
           (Inl error, w1) \<Rightarrow> (Inl error, w1)
         | (Inr u, w1) \<Rightarrow>
             (case findOne claimId w1 of
                Some updatedClaim \<Rightarrow> (Inr updatedClaim, w1)
              | None \<Rightarrow> (Inr claim, w1)))
      else (Inr claim, w))"

text \<open>Lines 232 to 279: the oracle's verdict, the save and the notification. The method has
  no \<^verbatim>\<open>return\<close> with a value: its result \<open>None\<close> is JavaScript's \<^verbatim>\<open>undefined\<close>.\<close>

definition verify_and_save :: "collaborators \<Rightarrow> Claim \<Rightarrow> world \<Rightarrow> (exn + Claim option) \<times> world" where
  "verify_and_save env claim w =
     (let w1 = called (VerifyClaim (claim_id claim) (description claim)) w
      in case verifyClaim env (claim_id claim) (description claim) of
           Inl error \<Rightarrow> (Inl error, w1)
         | Inr v \<Rightarrow>
             (let updatedClaim = claim\<lparr>status := verdict_status v,
                                       oracleData := Some \<lparr>verifiedAt = now env, verdict = v\<rparr>\<rparr>;
                  w2 = save updatedClaim w1
              in case claim_user w updatedClaim of
                   None \<Rightarrow> (Inr None, w2)
                 | Some user \<Rightarrow>
                     (let w3 = called (ClaimProcessingNotification updatedClaim user v) w2
                      in case sendClaimProcessingNotification env updatedClaim user v of
                           Inl error \<Rightarrow> (Inr None, w3)
                         | Inr u \<Rightarrow> (Inr None, w3))))"

definition processClaim :: "collaborators \<Rightarrow> nat \<Rightarrow> world \<Rightarrow> (exn + Claim option) \<times> world" where
  "processClaim env claimId w =
     (case findOne claimId w of
        None \<Rightarrow> (Inl (NotFoundException ''Claim not found or already processed''), w)
      | Some claim0 \<Rightarrow>
          if status claim0 \<noteq> PENDING then
            (Inl (NotFoundException ''Claim not found or already processed''), w)
          else
            (case screen_and_reload env claimId claim0 w of
               (Inl error, w1) \<Rightarrow> (Inl error, w1)
             | (Inr claim, w1) \<Rightarrow>
                 if isFraudulent claim then (Inr None, w1)
                 else verify_and_save env claim w1))"

subsection \<open>getFraudDetectionStatus\<close>

definition getFraudDetectionStatus :: "collaborators \<Rightarrow> exn + ServiceStatus" where
  "getFraudDetectionStatus env =
     (case getServiceStatus env of
        Some result \<Rightarrow>
          (case result of
             Inr s \<Rightarrow> Inr s
           | Inl error \<Rightarrow> Inr \<lparr>healthy = False, status_message = Some (message error)\<rparr>)
      | None \<Rightarrow>
          Inr \<lparr>healthy = True, status_message = Some ''Service status check not implemented''\<rparr>)"

subsection \<open>Sequences of operations\<close>

text \<open>The worlds the service reaches from an empty repository through \<open>create\<close>,
  \<open>runFraudDetection\<close> (called directly or as the queued background task) and
  \<open>processClaim\<close>, whatever the collaborators do at each call.\<close>

inductive reachable :: "world \<Rightarrow> bool" where
  initial: "reachable \<lparr>claims = [], users = us, next_id = n, scheduled = [], trace = []\<rparr>"
| by_create: "reachable w \<Longrightarrow> reachable (snd (create env dto uid w))"
| by_runFraudDetection: "reachable w \<Longrightarrow> reachable (snd (runFraudDetection env claimId w))"
| by_runScheduled: "reachable w \<Longrightarrow> reachable (runScheduled env w)"
| by_processClaim: "reachable w \<Longrightarrow> reachable (snd (processClaim env claimId w))"

text \<open>The specification's wording of the error of \<open>advanceClaim\<close> (section 4.3): \<open>NotFound\<close>
  for a claim that does not exist, \<open>InvalidState\<close> for one that is not \<open>Pending\<close>.\<close>

definition spec_advance_error :: "Claim option \<Rightarrow> spec_error option" where
  "spec_advance_error found =
     (case found of
        None \<Rightarrow> Some NotFound
      | Some c \<Rightarrow> if status c = PENDING then None else Some InvalidState)"

subsection \<open>Example collaborators and worlds\<close>

definition alice :: User where
  "alice = \<lparr>user_id = ''u1'', email = ''alice@example.org''\<rparr>"

definition legitimate :: FraudDetectionResult where
  "legitimate = \<lparr>fr_isFraudulent = False, confidenceScore = 1 / 10,
     reason = ''no indicators'', metadata = None\<rparr>"

definition fraudulent :: FraudDetectionResult where
  "fraudulent = \<lparr>fr_isFraudulent = True, confidenceScore = 9 / 10,
     reason = ''duplicate submission'',
     metadata = Some \<lparr>riskFactors = Some [''duplicate''], modelVersion = Some ''v1'',
                      timestamp = Some 7\<rparr>\<rparr>"

text \<open>Every collaborator answers: the screener finds nothing, the oracle approves.\<close>

definition env_ok :: collaborators where
  "env_ok = \<lparr>detectFraud = (\<lambda>c. Inr legitimate),
     getServiceStatus = None,
     verifyClaim = (\<lambda>i d. Inr ''approved''),
     sendClaimSubmittedNotification = (\<lambda>c u. Inr ()),
     sendClaimStatusNotification = (\<lambda>n. Inr ()),
     sendClaimProcessingNotification = (\<lambda>c u v. Inr ()),
     userService_findOne = (\<lambda>u. Inr (Some alice)),
     now = 1000\<rparr>"

text \<open>The screener reports fraud.\<close>

definition env_fraud :: collaborators where
  "env_fraud = env_ok\<lparr>detectFraud := (\<lambda>c. Inr fraudulent)\<rparr>"

text \<open>The oracle answers with a verdict the service does not know.\<close>

definition env_maybe :: collaborators where
  "env_maybe = env_ok\<lparr>verifyClaim := (\<lambda>i d. Inr ''maybe'')\<rparr>"

text \<open>The oracle is down.\<close>

definition env_no_oracle :: collaborators where
  "env_no_oracle = env_ok\<lparr>verifyClaim := (\<lambda>i d. Inl (Error ''oracle unavailable''))\<rparr>"

text \<open>The notifier throws at every call.\<close>

definition env_no_notifier :: collaborators where
  "env_no_notifier = env_ok\<lparr>
     sendClaimSubmittedNotification := (\<lambda>c u. Inl (Error ''smtp down'')),
     sendClaimStatusNotification := (\<lambda>n. Inl (Error ''smtp down'')),
     sendClaimProcessingNotification := (\<lambda>c u v. Inl (Error ''smtp down''))\<rparr>"

text \<open>The screener is down, and so is its status call.\<close>

definition env_no_screener :: collaborators where
  "env_no_screener = env_ok\<lparr>detectFraud := (\<lambda>c. Inl (Error ''screener unavailable'')),
     getServiceStatus := Some (Inl (Error ''screener unavailable''))\<rparr>"

definition world0 :: world where
  "world0 = \<lparr>claims = [], users = [(''u1'', alice)], next_id = 1, scheduled = [], trace = []\<rparr>"

definition water_damage :: CreateClaimDto where
  "water_damage = \<lparr>dto_description = ''water damage''\<rparr>"

text \<open>The claim of the scenario of section 8, as stored by \<open>create\<close>.\<close>

definition claim1 :: Claim where
  "claim1 = (new_claim water_damage ''u1'')\<lparr>claim_id := 1\<rparr>"

definition world1 :: world where
  "world1 = world0\<lparr>claims := [claim1], next_id := 2\<rparr>"

text \<open>The claim after a screening that found nothing, after one that reported fraud, and
  the flagged claim set back to \<open>Pending\<close> by an administrator.\<close>

definition claim1_screened :: Claim where
  "claim1_screened = apply_fraud_result 1000 legitimate claim1"

definition claim1_flagged :: Claim where
  "claim1_flagged = apply_fraud_result 1000 fraudulent claim1"

definition claim1_reopened :: Claim where
  "claim1_reopened = claim1_flagged\<lparr>status := PENDING\<rparr>"

definition claim1_approved :: Claim where
  "claim1_approved = claim1_screened\<lparr>status := APPROVED,
     oracleData := Some \<lparr>verifiedAt = 1000, verdict = ''approved''\<rparr>\<rparr>"

definition to_pending :: UpdateClaimDto where
  "to_pending = \<lparr>upd_status = Some PENDING, upd_description = None\<rparr>"

text \<open>A repository whose one claim has been approved.\<close>

definition world1_approved :: world where
  "world1_approved = world1\<lparr>claims := [claim1_approved]\<rparr>"

text \<open>The scenario that sets a flagged claim back to \<open>Pending\<close>: the claim is created,
  the background screening reports fraud, and an administrator updates the status.\<close>

definition world1_flagged :: world where
  "world1_flagged = runScheduled env_fraud (snd (create env_ok water_damage ''u1'' world0))"

definition world1_reopened :: world where
  "world1_reopened = snd (update env_ok 1 to_pending None True world1_flagged)"

text \<open>The world after the screening of \<open>claim1\<close> found nothing.\<close>

definition world1_screened :: world where
  "world1_screened = save claim1_screened (called (DetectFraud claim1) world1)"

text \<open>The flagged claim in a repository whose users table has lost the claim's owner.\<close>

definition world1_no_user :: world where
  "world1_no_user = world1_flagged\<lparr>users := []\<rparr>"

text \<open>The invariant of a stored claim that the operations keep: a claim is \<open>Flagged\<close>
  exactly when it is fraudulent, and a fraudulent claim has been screened.\<close>

definition claim_ok :: "Claim \<Rightarrow> bool" where
  "claim_ok c =
     (if isFraudulent c then status c = FLAGGED \<and> fraudCheckCompleted c
      else status c \<noteq> FLAGGED)"

definition world_ok :: "world \<Rightarrow> bool" where
  "world_ok w = list_all claim_ok (claims w)"

section \<open>Properties\<close>

subsection \<open>The repository\<close>

lemma findOne_called [simp]: "findOne i (called e w) = findOne i w"
  by (simp add: findOne_def called_def)

lemma find_upsert:
  "find (\<lambda>r. claim_id r = i) (upsert c rs) =
     (if i = claim_id c then Some c else find (\<lambda>r. claim_id r = i) rs)"
  by (induction rs) auto

lemma findOne_save [simp]:
  "findOne i (save c w) = (if i = claim_id c then Some c else findOne i w)"
  by (simp add: findOne_def save_def called_def find_upsert)

lemma findOne_id: "findOne i w = Some c \<Longrightarrow> claim_id c = i"
  by (auto simp: findOne_def find_Some_iff)

lemma findOne_in_claims: "findOne i w = Some c \<Longrightarrow> c \<in> set (claims w)"
  by (auto simp: findOne_def find_Some_iff)

lemma set_upsert: "set (upsert c rs) \<subseteq> insert c (set rs)"
  by (induction rs) auto

lemma claims_called [simp]: "claims (called e w) = claims w"
  by (simp add: called_def)

lemma claims_save: "set (claims (save c w)) \<subseteq> insert c (set (claims w))"
  by (simp add: save_def set_upsert)

lemma users_called [simp]: "users (called e w) = users w"
  by (simp add: called_def)

lemma users_save [simp]: "users (save c w) = users w"
  by (simp add: save_def)

lemma claim_user_called [simp]: "claim_user (called e w) c = claim_user w c"
  by (simp add: claim_user_def)

lemma claim_user_save [simp]: "claim_user (save c' w) c = claim_user w c"
  by (simp add: claim_user_def)

subsection \<open>runFraudDetection\<close>

text \<open>C3: when the screener's call fails for an existing claim that has not been screened,
  \<open>runFraudDetection\<close> still saves the claim with \<open>fraudCheckCompleted = true\<close> and every
  other field as it was (so \<open>isFraudulent\<close> and \<open>status\<close> keep their values), and throws
  the screener's error again.\<close>

theorem runFraudDetection_screener_failure:
  assumes "findOne claimId w = Some claim"
    and "\<not> fraudCheckCompleted claim"
    and "detectFraud env claim = Inl error"
  shows "fst (runFraudDetection env claimId w) = Inl error
    \<and> findOne claimId (snd (runFraudDetection env claimId w))
        = Some (claim\<lparr>fraudCheckCompleted := True\<rparr>)
    \<and> snd (runFraudDetection env claimId w)
        = save (claim\<lparr>fraudCheckCompleted := True\<rparr>) (called (DetectFraud claim) w)"
  using assms findOne_id [OF assms(1)] by (simp add: runFraudDetection_def)

theorem runFraudDetection_screener_failure_witness:
  "findOne 1 world1 = Some claim1 \<and> \<not> fraudCheckCompleted claim1
   \<and> detectFraud env_no_screener claim1 = Inl (Error ''screener unavailable'')
   \<and> fst (runFraudDetection env_no_screener 1 world1) = Inl (Error ''screener unavailable'')
   \<and> findOne 1 (snd (runFraudDetection env_no_screener 1 world1))
        = Some (claim1\<lparr>fraudCheckCompleted := True\<rparr>)
   \<and> isFraudulent (claim1\<lparr>fraudCheckCompleted := True\<rparr>) = False
   \<and> status (claim1\<lparr>fraudCheckCompleted := True\<rparr>) = PENDING"
proof -
  have a: "findOne 1 world1 = Some claim1"
    by (simp add: findOne_def world1_def world0_def claim1_def)
  have b: "\<not> fraudCheckCompleted claim1"
    by (simp add: claim1_def new_claim_def)
  have c: "detectFraud env_no_screener claim1 = Inl (Error ''screener unavailable'')"
    by (simp add: env_no_screener_def env_ok_def)
  have d: "status claim1 = PENDING" "\<not> isFraudulent claim1"
    by (simp_all add: claim1_def new_claim_def)
  note t = runFraudDetection_screener_failure [OF a b c]
  show ?thesis
    using a b c d t [THEN conjunct1] t [THEN conjunct2, THEN conjunct1] by simp
qed

lemma world1_claim1: "findOne 1 world1 = Some claim1"
  by (simp add: findOne_def world1_def world0_def claim1_def)

lemma claim1_fields:
  "status claim1 = PENDING" "\<not> fraudCheckCompleted claim1" "\<not> isFraudulent claim1"
  "claim_id claim1 = 1" "oracleData claim1 = None" "userId claim1 = ''u1''"
  "description claim1 = ''water damage''"
  by (simp_all add: claim1_def new_claim_def water_damage_def)

lemma runFraudDetection_missing:
  "findOne claimId w = None \<Longrightarrow> runFraudDetection env claimId w = (Inl (not_found claimId), w)"
  by (simp add: runFraudDetection_def)

lemma runFraudDetection_noop:
  "findOne claimId w = Some claim \<Longrightarrow> fraudCheckCompleted claim
    \<Longrightarrow> runFraudDetection env claimId w = (Inr (), w)"
  by (simp add: runFraudDetection_def)

lemma runFraudDetection_success:
  "findOne claimId w = Some claim \<Longrightarrow> \<not> fraudCheckCompleted claim
    \<Longrightarrow> detectFraud env claim = Inr r
    \<Longrightarrow> runFraudDetection env claimId w
      = (Inr (), save (apply_fraud_result (now env) r claim) (called (DetectFraud claim) w))"
  by (simp add: runFraudDetection_def)

lemma runFraudDetection_failure:
  "findOne claimId w = Some claim \<Longrightarrow> \<not> fraudCheckCompleted claim
    \<Longrightarrow> detectFraud env claim = Inl error
    \<Longrightarrow> runFraudDetection env claimId w
      = (Inl error, save (claim\<lparr>fraudCheckCompleted := True\<rparr>) (called (DetectFraud claim) w))"
  by (simp add: runFraudDetection_def)

lemma apply_fraud_result_simps [simp]:
  "claim_id (apply_fraud_result t r c) = claim_id c"
  "fraudCheckCompleted (apply_fraud_result t r c)"
  "isFraudulent (apply_fraud_result t r c) = fr_isFraudulent r"
  "status (apply_fraud_result t r c) = (if fr_isFraudulent r then FLAGGED else status c)"
  "oracleData (apply_fraud_result t r c) = oracleData c"
  "userId (apply_fraud_result t r c) = userId c"
  "description (apply_fraud_result t r c) = description c"
  by (simp_all add: apply_fraud_result_def Let_def)

lemma saves_called [simp]:
  "saves (called e w) = (case e of Save c \<Rightarrow> Suc (saves w) | _ \<Rightarrow> saves w)"
  by (cases e) (simp_all add: saves_def called_def)

lemma saves_save [simp]: "saves (save c w) = Suc (saves w)"
  by (simp add: save_def saves_def called_def)

text \<open>C7: \<open>runFraudDetection\<close> on a claim whose \<open>fraudCheckCompleted\<close> is true returns
  without an error and leaves the world as it was, with no call of the screener and no
  save; so of two calls in a row on an existing unscreened claim whose screener answers,
  the first saves the claim once, with \<open>fraudDetectionData\<close> set to the record built from
  the screener's result, and the second changes nothing: after it the stored
  \<open>fraudDetectionData\<close> is still the record of the first call and the number of saves is
  still one more than before the first. On an id with no claim it throws
  \<open>NotFoundException\<close> and changes nothing.\<close>

theorem runFraudDetection_idempotent:
  "(findOne claimId w = None \<longrightarrow>
      runFraudDetection env claimId w = (Inl (not_found claimId), w)
      \<and> classify (not_found claimId) = NotFound)
   \<and> (\<forall>claim. findOne claimId w = Some claim \<and> fraudCheckCompleted claim \<longrightarrow>
        runFraudDetection env claimId w = (Inr (), w))
   \<and> (\<forall>claim r. findOne claimId w = Some claim \<and> \<not> fraudCheckCompleted claim
        \<and> detectFraud env claim = Inr r \<longrightarrow>
        runFraudDetection env claimId w
          = (Inr (), save (apply_fraud_result (now env) r claim) (called (DetectFraud claim) w))
        \<and> saves (snd (runFraudDetection env claimId w)) = Suc (saves w)
        \<and> runFraudDetection env2 claimId (snd (runFraudDetection env claimId w))
          = (Inr (), snd (runFraudDetection env claimId w))
        \<and> map_option fraudDetectionData
            (findOne claimId (snd (runFraudDetection env claimId w)))
          = Some (Some
              \<lparr>fd_reason = reason r,
               fd_riskFactors = (case metadata r of None \<Rightarrow> None | Some m \<Rightarrow> riskFactors m),
               fd_modelVersion = (case metadata r of None \<Rightarrow> None | Some m \<Rightarrow> modelVersion m),
               detectedAt =
                 (case metadata r of
                    None \<Rightarrow> now env
                  | Some m \<Rightarrow> (case timestamp m of None \<Rightarrow> now env | Some ts \<Rightarrow> ts)),
               fd_metadata = metadata r\<rparr>)
        \<and> map_option fraudDetectionData
            (findOne claimId
              (snd (runFraudDetection env2 claimId (snd (runFraudDetection env claimId w)))))
          = Some (Some
              \<lparr>fd_reason = reason r,
               fd_riskFactors = (case metadata r of None \<Rightarrow> None | Some m \<Rightarrow> riskFactors m),
               fd_modelVersion = (case metadata r of None \<Rightarrow> None | Some m \<Rightarrow> modelVersion m),
               detectedAt =
                 (case metadata r of
                    None \<Rightarrow> now env
                  | Some m \<Rightarrow> (case timestamp m of None \<Rightarrow> now env | Some ts \<Rightarrow> ts)),
               fd_metadata = metadata r\<rparr>)
        \<and> map_option
            (\<lambda>c. (fraudCheckCompleted c, isFraudulent c, fraudConfidenceScore c))
            (findOne claimId
              (snd (runFraudDetection env2 claimId (snd (runFraudDetection env claimId w)))))
          = Some (True, fr_isFraudulent r, Some (confidenceScore r))
        \<and> saves (snd (runFraudDetection env2 claimId (snd (runFraudDetection env claimId w))))
          = Suc (saves w))"
proof (intro conjI allI impI)
  assume "findOne claimId w = None"
  then show "runFraudDetection env claimId w = (Inl (not_found claimId), w)"
    by (rule runFraudDetection_missing)
next
  show "classify (not_found claimId) = NotFound"
    by (simp add: not_found_def)
next
  fix claim
  assume "findOne claimId w = Some claim \<and> fraudCheckCompleted claim"
  then show "runFraudDetection env claimId w = (Inr (), w)"
    by (auto intro: runFraudDetection_noop)
next
  fix claim r
  assume a: "findOne claimId w = Some claim \<and> \<not> fraudCheckCompleted claim
    \<and> detectFraud env claim = Inr r"
  let ?c' = "apply_fraud_result (now env) r claim"
  let ?w' = "save ?c' (called (DetectFraud claim) w)"
  let ?d = "\<lparr>fd_reason = reason r,
               fd_riskFactors = (case metadata r of None \<Rightarrow> None | Some m \<Rightarrow> riskFactors m),
               fd_modelVersion = (case metadata r of None \<Rightarrow> None | Some m \<Rightarrow> modelVersion m),
               detectedAt =
                 (case metadata r of
                    None \<Rightarrow> now env
                  | Some m \<Rightarrow> (case timestamp m of None \<Rightarrow> now env | Some ts \<Rightarrow> ts)),
               fd_metadata = metadata r\<rparr>"
  from a have i: "claim_id claim = claimId"
    by (auto dest: findOne_id)
  from a show first: "runFraudDetection env claimId w = (Inr (), ?w')"
    by (auto intro: runFraudDetection_success)
  show one: "saves (snd (runFraudDetection env claimId w)) = Suc (saves w)"
    unfolding first by simp
  have stored: "findOne claimId ?w' = Some ?c'"
    using i by simp
  then have "runFraudDetection env2 claimId ?w' = (Inr (), ?w')"
    by (rule runFraudDetection_noop) simp
  then show second: "runFraudDetection env2 claimId (snd (runFraudDetection env claimId w))
      = (Inr (), snd (runFraudDetection env claimId w))"
    unfolding first by simp
  have data: "fraudDetectionData ?c' = Some ?d"
    by (simp add: apply_fraud_result_def Let_def)
  show "map_option fraudDetectionData
      (findOne claimId (snd (runFraudDetection env claimId w))) = Some (Some ?d)"
    unfolding first using stored data by simp
  show "map_option fraudDetectionData
      (findOne claimId
        (snd (runFraudDetection env2 claimId (snd (runFraudDetection env claimId w)))))
      = Some (Some ?d)"
    unfolding second unfolding first using stored data by simp
  have score: "fraudConfidenceScore ?c' = Some (confidenceScore r)"
    by (simp add: apply_fraud_result_def Let_def)
  show "map_option (\<lambda>c. (fraudCheckCompleted c, isFraudulent c, fraudConfidenceScore c))
      (findOne claimId
        (snd (runFraudDetection env2 claimId (snd (runFraudDetection env claimId w)))))
      = Some (True, fr_isFraudulent r, Some (confidenceScore r))"
    unfolding second unfolding first using stored score by simp
  show "saves (snd (runFraudDetection env2 claimId (snd (runFraudDetection env claimId w))))
      = Suc (saves w)"
    unfolding second using one by simp
qed

theorem runFraudDetection_idempotent_witness:
  "findOne 2 world1 = None
   \<and> runFraudDetection env_ok 2 world1 = (Inl (not_found 2), world1)
   \<and> findOne 1 world1 = Some claim1 \<and> \<not> fraudCheckCompleted claim1
   \<and> detectFraud env_ok claim1 = Inr legitimate
   \<and> saves (snd (runFraudDetection env_ok 1 world1)) = Suc (saves world1)
   \<and> runFraudDetection env_fraud 1 (snd (runFraudDetection env_ok 1 world1))
        = (Inr (), snd (runFraudDetection env_ok 1 world1))
   \<and> map_option fraudDetectionData
        (findOne 1 (snd (runFraudDetection env_fraud 1 (snd (runFraudDetection env_ok 1 world1)))))
        = Some (Some \<lparr>fd_reason = ''no indicators'', fd_riskFactors = None,
            fd_modelVersion = None, detectedAt = 1000, fd_metadata = None\<rparr>)
   \<and> fraudDetectionData claim1 = None
   \<and> saves (snd (runFraudDetection env_fraud 1 (snd (runFraudDetection env_ok 1 world1))))
        = Suc (saves world1)
   \<and> findOne 1 (save claim1_screened world1) = Some claim1_screened
   \<and> fraudCheckCompleted claim1_screened
   \<and> runFraudDetection env_fraud 1 (save claim1_screened world1)
        = (Inr (), save claim1_screened world1)"
proof -
  have n: "findOne 2 world1 = None"
    by (simp add: findOne_def world1_def world0_def claim1_def)
  have d: "detectFraud env_ok claim1 = Inr legitimate"
    by (simp add: env_ok_def)
  have t: "now env_ok = 1000"
    by (simp add: env_ok_def)
  have s: "findOne 1 (save claim1_screened world1) = Some claim1_screened"
      "fraudCheckCompleted claim1_screened"
    by (simp_all add: claim1_screened_def claim1_fields)
  have e: "fraudDetectionData claim1 = None"
    by (simp add: claim1_def new_claim_def)
  note missing = runFraudDetection_idempotent [THEN conjunct1, rule_format]
  note noop = runFraudDetection_idempotent [THEN conjunct2, THEN conjunct1, rule_format]
  note once = runFraudDetection_idempotent [THEN conjunct2, THEN conjunct2, rule_format]
  have one: "runFraudDetection env_ok 2 world1 = (Inl (not_found 2), world1)"
    using missing [OF n] by (rule conjunct1)
  have h: "findOne 1 world1 = Some claim1 \<and> \<not> fraudCheckCompleted claim1
      \<and> detectFraud env_ok claim1 = Inr legitimate"
    by (intro conjI) (rule world1_claim1 claim1_fields(2) d)+
  note rest = once [OF h, of env_fraud, THEN conjunct2]
  note two = rest [THEN conjunct1] rest [THEN conjunct2, THEN conjunct1]
  note after = rest [THEN conjunct2, THEN conjunct2, THEN conjunct2]
  have data: "map_option fraudDetectionData
        (findOne 1 (snd (runFraudDetection env_fraud 1 (snd (runFraudDetection env_ok 1 world1)))))
        = Some (Some \<lparr>fd_reason = ''no indicators'', fd_riskFactors = None,
            fd_modelVersion = None, detectedAt = 1000, fd_metadata = None\<rparr>)"
    using after [THEN conjunct1] t by (simp add: legitimate_def)
  note count = after [THEN conjunct2, THEN conjunct2]
  have three: "runFraudDetection env_fraud 1 (save claim1_screened world1)
        = (Inr (), save claim1_screened world1)"
    by (rule noop [OF conjI [OF s]])
  show ?thesis
    by (intro conjI)
      (rule n one world1_claim1 claim1_fields(2) d two data e count three s)+
qed

subsection \<open>processClaim\<close>

lemma claim1_approved_fields:
  "status claim1_approved = APPROVED" "claim_id claim1_approved = 1"
  by (simp_all add: claim1_approved_def claim1_screened_def claim1_fields)

lemma world1_approved_claim: "findOne 1 world1_approved = Some claim1_approved"
  by (simp add: findOne_def world1_approved_def world1_def world0_def claim1_approved_fields)

text \<open>C2, as the code has it: for an id with no claim and for a claim whose status is not
  \<open>Pending\<close>, \<open>processClaim\<close> throws the same
  \<^verbatim>\<open>NotFoundException('Claim not found or already processed')\<close> and leaves the world,
  and so the stored claim, as it was. No call of a collaborator is made.\<close>

theorem processClaim_not_pending:
  assumes "spec_advance_error (findOne claimId w) \<noteq> None"
  shows "processClaim env claimId w
           = (Inl (NotFoundException ''Claim not found or already processed''), w)
    \<and> classify (NotFoundException ''Claim not found or already processed'') = NotFound"
  using assms
  by (simp add: processClaim_def spec_advance_error_def split: option.splits if_splits)

theorem processClaim_not_pending_witness:
  "spec_advance_error (findOne 1 world1_approved) \<noteq> None
   \<and> spec_advance_error (findOne 2 world1_approved) \<noteq> None
   \<and> processClaim env_ok 1 world1_approved
        = (Inl (NotFoundException ''Claim not found or already processed''), world1_approved)
   \<and> processClaim env_ok 2 world1_approved
        = (Inl (NotFoundException ''Claim not found or already processed''), world1_approved)"
proof -
  have a: "spec_advance_error (findOne 1 world1_approved) \<noteq> None"
    using world1_approved_claim
    by (simp add: spec_advance_error_def claim1_approved_fields)
  have "findOne 2 world1_approved = None"
    by (simp add: findOne_def world1_approved_def world1_def world0_def claim1_approved_fields)
  then have b: "spec_advance_error (findOne 2 world1_approved) \<noteq> None"
    by (simp add: spec_advance_error_def)
  show ?thesis
    by (intro conjI)
      (rule a b processClaim_not_pending [OF a, THEN conjunct1]
        processClaim_not_pending [OF b, THEN conjunct1])+
qed

text \<open>C2 as the specification words it fails: for the approved claim the specification
  asks for \<open>InvalidState\<close>, and the exception thrown is of the class \<open>NotFound\<close>.\<close>

theorem processClaim_invalid_state_counterexample:
  "findOne 1 world1_approved = Some claim1_approved
   \<and> status claim1_approved \<noteq> PENDING
   \<and> spec_advance_error (findOne 1 world1_approved) = Some InvalidState
   \<and> map_sum classify id (fst (processClaim env_ok 1 world1_approved)) = Inl NotFound
   \<and> map_sum classify id (fst (processClaim env_ok 1 world1_approved)) \<noteq> Inl InvalidState"
  using world1_approved_claim
  by (simp add: claim1_approved_fields spec_advance_error_def processClaim_def)

lemma oracle_calls_called [simp]:
  "oracle_calls (called e w) = (case e of VerifyClaim i d \<Rightarrow> Suc (oracle_calls w) | _ \<Rightarrow> oracle_calls w)"
  by (cases e) (simp_all add: oracle_calls_def called_def)

lemma oracle_calls_save [simp]: "oracle_calls (save c w) = oracle_calls w"
  by (simp add: save_def oracle_calls_def called_def)

lemma screen_and_reload_done:
  "fraudCheckCompleted claim \<Longrightarrow> screen_and_reload env claimId claim w = (Inr claim, w)"
  by (simp add: screen_and_reload_def)

lemma screen_and_reload_success:
  assumes "findOne claimId w = Some claim" "\<not> fraudCheckCompleted claim"
    and "detectFraud env claim = Inr r"
  shows "screen_and_reload env claimId claim w
    = (Inr (apply_fraud_result (now env) r claim),
       save (apply_fraud_result (now env) r claim) (called (DetectFraud claim) w))"
  using assms(2) findOne_id [OF assms(1)]
  by (simp add: screen_and_reload_def runFraudDetection_success [OF assms])

lemma screen_and_reload_failure:
  assumes "findOne claimId w = Some claim" "\<not> fraudCheckCompleted claim"
    and "detectFraud env claim = Inl error"
  shows "screen_and_reload env claimId claim w
    = (Inl error, save (claim\<lparr>fraudCheckCompleted := True\<rparr>) (called (DetectFraud claim) w))"
  using assms(2)
  by (simp add: screen_and_reload_def runFraudDetection_failure [OF assms])

text \<open>What lines 214 to 223 leave behind when they do not throw: the claim in hand is the
  stored one, it has been screened, and it differs from the claim the method loaded only
  by the screening result.\<close>

lemma screen_and_reload_Inr:
  assumes "findOne claimId w = Some claim"
    and "screen_and_reload env claimId claim w = (Inr claim', w')"
  shows "findOne claimId w' = Some claim'"
    and "claim_id claim' = claimId"
    and "users w' = users w"
    and "fraudCheckCompleted claim \<Longrightarrow> claim' = claim \<and> w' = w"
    and "\<not> fraudCheckCompleted claim \<Longrightarrow>
          \<exists>r. detectFraud env claim = Inr r \<and> claim' = apply_fraud_result (now env) r claim
            \<and> w' = save claim' (called (DetectFraud claim) w)"
proof -
  note i = findOne_id [OF assms(1)]
  show c: "fraudCheckCompleted claim \<Longrightarrow> claim' = claim \<and> w' = w"
    using assms(2) by (simp add: screen_and_reload_done)
  show d: "\<not> fraudCheckCompleted claim \<Longrightarrow>
          \<exists>r. detectFraud env claim = Inr r \<and> claim' = apply_fraud_result (now env) r claim
            \<and> w' = save claim' (called (DetectFraud claim) w)"
  proof (cases "detectFraud env claim")
    case (Inl e)
    assume "\<not> fraudCheckCompleted claim"
    from screen_and_reload_failure [OF assms(1) this Inl] assms(2) show ?thesis by simp
  next
    case (Inr r)
    assume "\<not> fraudCheckCompleted claim"
    from screen_and_reload_success [OF assms(1) this Inr] assms(2) Inr show ?thesis by auto
  qed
  show "findOne claimId w' = Some claim'"
    using c d assms(1) i by (cases "fraudCheckCompleted claim") auto
  show "claim_id claim' = claimId"
    using c d i by (cases "fraudCheckCompleted claim") auto
  show "users w' = users w"
    using c d by (cases "fraudCheckCompleted claim") auto
qed

lemma processClaim_pending:
  assumes "findOne claimId w = Some claim" "status claim = PENDING"
  shows "processClaim env claimId w =
     (case screen_and_reload env claimId claim w of
        (Inl error, w1) \<Rightarrow> (Inl error, w1)
      | (Inr claim', w1) \<Rightarrow>
          if isFraudulent claim' then (Inr None, w1) else verify_and_save env claim' w1)"
  using assms by (simp add: processClaim_def)

lemma verify_and_save_verdict:
  assumes "verifyClaim env (claim_id claim) (description claim) = Inr v"
  shows "fst (verify_and_save env claim w) = Inr None"
    and "findOne (claim_id claim) (snd (verify_and_save env claim w))
      = Some (claim\<lparr>status := verdict_status v,
                      oracleData := Some \<lparr>verifiedAt = now env, verdict = v\<rparr>\<rparr>)"
    and "oracle_calls (snd (verify_and_save env claim w)) = Suc (oracle_calls w)"
  using assms
  by (simp_all add: verify_and_save_def Let_def split: option.splits sum.splits)

lemma verify_and_save_failure:
  assumes "verifyClaim env (claim_id claim) (description claim) = Inl error"
  shows "verify_and_save env claim w
    = (Inl error, called (VerifyClaim (claim_id claim) (description claim)) w)"
  using assms by (simp add: verify_and_save_def)

text \<open>C5: when \<open>processClaim\<close> runs on a \<open>Pending\<close> claim that is not fraudulent after the
  screening of lines 214 to 223 and the oracle answers with the string \<open>v\<close>, the method
  returns normally and the stored claim is that claim with the status \<open>Approved\<close> for
  \<^verbatim>\<open>"approved"\<close>, \<open>Rejected\<close> for \<^verbatim>\<open>"rejected"\<close> and \<open>Pending\<close> for every other string,
  and with \<open>oracleData\<close> holding the string \<open>v\<close> and the time of the call.\<close>

theorem processClaim_verdict:
  assumes "findOne claimId w = Some claim"
    and "status claim = PENDING"
    and "screen_and_reload env claimId claim w = (Inr claim', w')"
    and "\<not> isFraudulent claim'"
    and "verifyClaim env (claim_id claim') (description claim') = Inr v"
  shows "fst (processClaim env claimId w) = Inr None
    \<and> findOne claimId (snd (processClaim env claimId w))
        = Some (claim'\<lparr>status := verdict_status v,
                        oracleData := Some \<lparr>verifiedAt = now env, verdict = v\<rparr>\<rparr>)
    \<and> verdict_status v =
        (if v = ''approved'' then APPROVED else if v = ''rejected'' then REJECTED else PENDING)
    \<and> status claim' = PENDING"
proof -
  have p: "processClaim env claimId w = verify_and_save env claim' w'"
    using assms(3,4) by (simp add: processClaim_pending [OF assms(1,2)])
  note r = screen_and_reload_Inr [OF assms(1,3)]
  have "status claim' = PENDING"
  proof (cases "fraudCheckCompleted claim")
    case True
    with r(4) assms(2) show ?thesis by simp
  next
    case False
    with r(5) assms(2,4) show ?thesis by auto
  qed
  then show ?thesis
    using verify_and_save_verdict [OF assms(5), of w'] r(2)
    by (simp add: p verdict_status_def)
qed

lemma env_ok_simps [simp]:
  "detectFraud env_ok c = Inr legitimate" "now env_ok = 1000"
  "verifyClaim env_ok i d = Inr ''approved''" "getServiceStatus env_ok = None"
  "userService_findOne env_ok u = Inr (Some alice)"
  "sendClaimSubmittedNotification env_ok c usr = Inr ()"
  "sendClaimStatusNotification env_ok n = Inr ()"
  "sendClaimProcessingNotification env_ok c usr v = Inr ()"
  by (simp_all add: env_ok_def)

lemma env_maybe_simps [simp]:
  "detectFraud env_maybe c = Inr legitimate" "now env_maybe = 1000"
  "verifyClaim env_maybe i d = Inr ''maybe''"
  by (simp_all add: env_maybe_def)

lemma env_fraud_simps [simp]:
  "detectFraud env_fraud c = Inr fraudulent" "now env_fraud = 1000"
  "verifyClaim env_fraud i d = Inr ''approved''"
  by (simp_all add: env_fraud_def)

lemma env_no_oracle_simps [simp]:
  "detectFraud env_no_oracle c = Inr legitimate" "now env_no_oracle = 1000"
  "verifyClaim env_no_oracle i d = Inl (Error ''oracle unavailable'')"
  by (simp_all add: env_no_oracle_def)

lemma env_no_notifier_simps [simp]:
  "detectFraud env_no_notifier c = Inr legitimate" "now env_no_notifier = 1000"
  "verifyClaim env_no_notifier i d = Inr ''approved''"
  "userService_findOne env_no_notifier u = Inr (Some alice)"
  "sendClaimSubmittedNotification env_no_notifier c usr = Inl (Error ''smtp down'')"
  "sendClaimStatusNotification env_no_notifier n = Inl (Error ''smtp down'')"
  "sendClaimProcessingNotification env_no_notifier c usr v = Inl (Error ''smtp down'')"
  by (simp_all add: env_no_notifier_def)

lemma claim1_screened_fields:
  "status claim1_screened = PENDING" "fraudCheckCompleted claim1_screened"
  "\<not> isFraudulent claim1_screened" "claim_id claim1_screened = 1"
  "oracleData claim1_screened = None" "userId claim1_screened = ''u1''"
  "description claim1_screened = ''water damage''"
  by (simp_all add: claim1_screened_def claim1_fields legitimate_def)

lemma world1_screen_and_reload:
  assumes "detectFraud env claim1 = Inr legitimate" "now env = 1000"
  shows "screen_and_reload env 1 claim1 world1 = (Inr claim1_screened, world1_screened)"
  using screen_and_reload_success [OF world1_claim1 claim1_fields(2) assms(1)] assms(2)
  by (simp add: claim1_screened_def world1_screened_def)

theorem processClaim_verdict_witness:
  "findOne 1 world1 = Some claim1 \<and> status claim1 = PENDING
   \<and> screen_and_reload env_ok 1 claim1 world1 = (Inr claim1_screened, world1_screened)
   \<and> screen_and_reload env_maybe 1 claim1 world1 = (Inr claim1_screened, world1_screened)
   \<and> \<not> isFraudulent claim1_screened
   \<and> verifyClaim env_ok (claim_id claim1_screened) (description claim1_screened)
        = Inr ''approved''
   \<and> verifyClaim env_maybe (claim_id claim1_screened) (description claim1_screened)
        = Inr ''maybe''
   \<and> fst (processClaim env_ok 1 world1) = Inr None
   \<and> findOne 1 (snd (processClaim env_ok 1 world1)) = Some claim1_approved
   \<and> status claim1_approved = APPROVED
   \<and> fst (processClaim env_maybe 1 world1) = Inr None
   \<and> findOne 1 (snd (processClaim env_maybe 1 world1))
        = Some (claim1_screened\<lparr>status := PENDING,
             oracleData := Some \<lparr>verifiedAt = 1000, verdict = ''maybe''\<rparr>\<rparr>)"
proof -
  have s: "screen_and_reload env_ok 1 claim1 world1 = (Inr claim1_screened, world1_screened)"
    by (rule world1_screen_and_reload) simp_all
  have s': "screen_and_reload env_maybe 1 claim1 world1 = (Inr claim1_screened, world1_screened)"
    by (rule world1_screen_and_reload) simp_all
  have v: "verifyClaim env_ok (claim_id claim1_screened) (description claim1_screened)
        = Inr ''approved''"
    by simp
  have v': "verifyClaim env_maybe (claim_id claim1_screened) (description claim1_screened)
        = Inr ''maybe''"
    by simp
  note ok = processClaim_verdict [OF world1_claim1 claim1_fields(1) s claim1_screened_fields(3) v]
  note maybe =
    processClaim_verdict [OF world1_claim1 claim1_fields(1) s' claim1_screened_fields(3) v']
  have a: "findOne 1 (snd (processClaim env_ok 1 world1)) = Some claim1_approved"
    using ok [THEN conjunct2, THEN conjunct1]
    by (simp add: claim1_approved_def verdict_status_def)
  have m: "findOne 1 (snd (processClaim env_maybe 1 world1))
        = Some (claim1_screened\<lparr>status := PENDING,
             oracleData := Some \<lparr>verifiedAt = 1000, verdict = ''maybe''\<rparr>\<rparr>)"
    using maybe [THEN conjunct2, THEN conjunct1]
    by (simp add: verdict_status_def)
  show ?thesis
    by (intro conjI)
      (rule world1_claim1 claim1_fields(1) s s' claim1_screened_fields(3) v v'
        ok [THEN conjunct1] maybe [THEN conjunct1] a m claim1_approved_fields(1))+
qed

text \<open>C6, as the code has it: when the oracle's call fails on a \<open>Pending\<close> claim that is not
  fraudulent after the screening of lines 214 to 223, \<open>processClaim\<close> throws the oracle's
  error, and the stored claim is the one the screening left: its status is \<open>Pending\<close> and
  its \<open>oracleData\<close> is what it was before the call. If the screening had been completed
  before the call, the stored claim is unchanged; if it ran inside this call, its result
  stays saved.\<close>

theorem processClaim_oracle_failure:
  assumes "findOne claimId w = Some claim"
    and "status claim = PENDING"
    and "screen_and_reload env claimId claim w = (Inr claim', w')"
    and "\<not> isFraudulent claim'"
    and "verifyClaim env (claim_id claim') (description claim') = Inl error"
  shows "fst (processClaim env claimId w) = Inl error
    \<and> findOne claimId (snd (processClaim env claimId w)) = Some claim'
    \<and> status claim' = PENDING
    \<and> oracleData claim' = oracleData claim
    \<and> (if fraudCheckCompleted claim then claim' = claim
        else \<exists>r. detectFraud env claim = Inr r
               \<and> claim' = apply_fraud_result (now env) r claim)"
proof -
  have p: "processClaim env claimId w = verify_and_save env claim' w'"
    using assms(3,4) by (simp add: processClaim_pending [OF assms(1,2)])
  note r = screen_and_reload_Inr [OF assms(1,3)]
  have c: "if fraudCheckCompleted claim then claim' = claim
        else \<exists>r. detectFraud env claim = Inr r
               \<and> claim' = apply_fraud_result (now env) r claim"
    using r(4,5) by (cases "fraudCheckCompleted claim") auto
  have s: "status claim' = PENDING \<and> oracleData claim' = oracleData claim"
  proof (cases "fraudCheckCompleted claim")
    case True
    with r(4) assms(2) show ?thesis by simp
  next
    case False
    with r(5) assms(2,4) show ?thesis by auto
  qed
  have "fst (processClaim env claimId w) = Inl error"
    "findOne claimId (snd (processClaim env claimId w)) = Some claim'"
    using r(1) by (simp_all add: p verify_and_save_failure [OF assms(5)])
  with c s show ?thesis by blast
qed

theorem processClaim_oracle_failure_witness:
  "findOne 1 world1 = Some claim1 \<and> status claim1 = PENDING
   \<and> screen_and_reload env_no_oracle 1 claim1 world1 = (Inr claim1_screened, world1_screened)
   \<and> \<not> isFraudulent claim1_screened
   \<and> verifyClaim env_no_oracle (claim_id claim1_screened) (description claim1_screened)
        = Inl (Error ''oracle unavailable'')
   \<and> fst (processClaim env_no_oracle 1 world1) = Inl (Error ''oracle unavailable'')
   \<and> findOne 1 (snd (processClaim env_no_oracle 1 world1)) = Some claim1_screened
   \<and> status claim1_screened = PENDING
   \<and> oracleData claim1_screened = oracleData claim1"
proof -
  have s: "screen_and_reload env_no_oracle 1 claim1 world1
      = (Inr claim1_screened, world1_screened)"
    by (rule world1_screen_and_reload) simp_all
  have v: "verifyClaim env_no_oracle (claim_id claim1_screened) (description claim1_screened)
        = Inl (Error ''oracle unavailable'')"
    by simp
  note t = processClaim_oracle_failure
    [OF world1_claim1 claim1_fields(1) s claim1_screened_fields(3) v]
  show ?thesis
    by (intro conjI)
      (rule world1_claim1 claim1_fields(1) s claim1_screened_fields(3) v
        t [THEN conjunct1] t [THEN conjunct2, THEN conjunct1]
        t [THEN conjunct2, THEN conjunct2, THEN conjunct1]
        t [THEN conjunct2, THEN conjunct2, THEN conjunct2, THEN conjunct1])+
qed

text \<open>C6 as the specification words it fails: the claim of \<open>world1\<close> has not been
  screened; the screening inside \<open>processClaim\<close> finds nothing and is saved, the oracle
  then fails, and the stored claim is no longer the one from before the call.\<close>

theorem processClaim_oracle_failure_counterexample:
  "findOne 1 world1 = Some claim1 \<and> status claim1 = PENDING
   \<and> fst (processClaim env_no_oracle 1 world1) = Inl (Error ''oracle unavailable'')
   \<and> findOne 1 (snd (processClaim env_no_oracle 1 world1)) = Some claim1_screened
   \<and> fraudCheckCompleted claim1_screened \<and> \<not> fraudCheckCompleted claim1
   \<and> findOne 1 (snd (processClaim env_no_oracle 1 world1)) \<noteq> findOne 1 world1"
proof -
  have s: "screen_and_reload env_no_oracle 1 claim1 world1
      = (Inr claim1_screened, world1_screened)"
    by (rule world1_screen_and_reload) simp_all
  have p: "processClaim env_no_oracle 1 world1
      = verify_and_save env_no_oracle claim1_screened world1_screened"
    using processClaim_pending [OF world1_claim1 claim1_fields(1), of env_no_oracle] s
    by (simp add: claim1_screened_fields)
  have f: "findOne 1 world1_screened = Some claim1_screened"
    by (simp add: world1_screened_def claim1_screened_fields)
  have a: "fst (processClaim env_no_oracle 1 world1) = Inl (Error ''oracle unavailable'')"
    unfolding p by (simp add: verify_and_save_def)
  have b: "findOne 1 (snd (processClaim env_no_oracle 1 world1)) = Some claim1_screened"
    unfolding p using f by (simp add: verify_and_save_def)
  have c: "findOne 1 (snd (processClaim env_no_oracle 1 world1)) \<noteq> findOne 1 world1"
    unfolding b world1_claim1 using claim1_screened_fields(2) claim1_fields(2) by auto
  show ?thesis
    by (intro conjI)
      (rule world1_claim1 claim1_fields(1) a b c claim1_screened_fields(2) claim1_fields(2))+
qed

text \<open>C4, as the code has it: when \<open>processClaim\<close> runs on a \<open>Pending\<close> claim and the claim
  in hand after lines 214 to 223 is fraudulent, the method returns without a call of the
  oracle and without a change of \<open>oracleData\<close>. If the screening ran inside this call (the
  screener has just reported fraud), the stored claim has the status \<open>Flagged\<close>. If the
  screening had been completed before and the claim is \<open>Pending\<close> all the same, nothing is
  written: the world is as it was and the claim stays \<open>Pending\<close>.\<close>

theorem processClaim_fraudulent:
  assumes "findOne claimId w = Some claim"
    and "status claim = PENDING"
    and "screen_and_reload env claimId claim w = (Inr claim', w')"
    and "isFraudulent claim'"
  shows "processClaim env claimId w = (Inr None, w')
    \<and> oracle_calls w' = oracle_calls w
    \<and> findOne claimId w' = Some claim'
    \<and> oracleData claim' = oracleData claim
    \<and> (if fraudCheckCompleted claim then w' = w \<and> claim' = claim
        else status claim' = FLAGGED
          \<and> (\<exists>r. detectFraud env claim = Inr r \<and> fr_isFraudulent r
                \<and> claim' = apply_fraud_result (now env) r claim))"
proof -
  have p: "processClaim env claimId w = (Inr None, w')"
    using assms(3,4) by (simp add: processClaim_pending [OF assms(1,2)])
  note r = screen_and_reload_Inr [OF assms(1,3)]
  show ?thesis
  proof (cases "fraudCheckCompleted claim")
    case True
    with r(4) p assms(1) show ?thesis by simp
  next
    case False
    from r(5) [OF False] obtain res where
      res: "detectFraud env claim = Inr res" "claim' = apply_fraud_result (now env) res claim"
        "w' = save claim' (called (DetectFraud claim) w)"
      by blast
    from res(2) assms(4) have "fr_isFraudulent res" by simp
    with res False p r(1) show ?thesis by auto
  qed
qed

lemma claim1_flagged_fields:
  "status claim1_flagged = FLAGGED" "fraudCheckCompleted claim1_flagged"
  "isFraudulent claim1_flagged" "claim_id claim1_flagged = 1"
  "oracleData claim1_flagged = None" "userId claim1_flagged = ''u1''"
  by (simp_all add: claim1_flagged_def claim1_fields fraudulent_def)

lemma claim1_reopened_fields:
  "status claim1_reopened = PENDING" "fraudCheckCompleted claim1_reopened"
  "isFraudulent claim1_reopened" "claim_id claim1_reopened = 1"
  "oracleData claim1_reopened = None" "userId claim1_reopened = ''u1''"
  by (simp_all add: claim1_reopened_def claim1_flagged_fields)

lemma created_world1:
  "fst (create env_ok water_damage ''u1'' world0) = Inr (ClaimResponseDto claim1)"
  "claims (snd (create env_ok water_damage ''u1'' world0)) = [claim1]"
  "users (snd (create env_ok water_damage ''u1'' world0)) = users world1"
  "scheduled (snd (create env_ok water_damage ''u1'' world0)) = [1]"
  by (simp_all add: create_def Let_def world0_def world1_def claim1_def save_def called_def
      runFraudDetectionAsync_def)

lemma world1_flagged_claims:
  "claims world1_flagged = [claim1_flagged]" "users world1_flagged = users world1"
proof -
  let ?w = "(snd (create env_ok water_damage ''u1'' world0))\<lparr>scheduled := []\<rparr>"
  have f: "findOne 1 ?w = Some claim1"
    by (simp add: findOne_def created_world1 claim1_fields)
  have r: "runFraudDetection env_fraud 1 ?w
      = (Inr (), save claim1_flagged (called (DetectFraud claim1) ?w))"
    using runFraudDetection_success [OF f claim1_fields(2), of env_fraud fraudulent]
    by (simp add: claim1_flagged_def)
  have s: "world1_flagged = save claim1_flagged (called (DetectFraud claim1) ?w)"
    using r by (simp add: world1_flagged_def runScheduled_def created_world1)
  show "claims world1_flagged = [claim1_flagged]"
    unfolding s by (simp add: save_def created_world1 claim1_fields claim1_flagged_fields)
  show "users world1_flagged = users world1"
    unfolding s by (simp add: created_world1)
qed

lemma world1_reopened_claims:
  "claims world1_reopened = [claim1_reopened]"
  by (simp add: world1_reopened_def update_def findOne_def world1_flagged_claims
      claim1_flagged_fields Let_def to_pending_def assign_dto_def claim1_reopened_def
      save_def split: sum.splits option.splits)

lemma world1_reopened_claim: "findOne 1 world1_reopened = Some claim1_reopened"
  by (simp add: findOne_def world1_reopened_claims claim1_reopened_fields)

theorem processClaim_fraudulent_witness:
  "findOne 1 world1 = Some claim1 \<and> status claim1 = PENDING
   \<and> screen_and_reload env_fraud 1 claim1 world1
        = (Inr claim1_flagged, save claim1_flagged (called (DetectFraud claim1) world1))
   \<and> isFraudulent claim1_flagged
   \<and> processClaim env_fraud 1 world1
        = (Inr None, save claim1_flagged (called (DetectFraud claim1) world1))
   \<and> oracle_calls (save claim1_flagged (called (DetectFraud claim1) world1))
        = oracle_calls world1
   \<and> findOne 1 (save claim1_flagged (called (DetectFraud claim1) world1)) = Some claim1_flagged
   \<and> status claim1_flagged = FLAGGED
   \<and> oracleData claim1_flagged = oracleData claim1"
proof -
  have s: "screen_and_reload env_fraud 1 claim1 world1
        = (Inr claim1_flagged, save claim1_flagged (called (DetectFraud claim1) world1))"
    using screen_and_reload_success [OF world1_claim1 claim1_fields(2), of env_fraud fraudulent]
    by (simp add: claim1_flagged_def)
  note t = processClaim_fraudulent [OF world1_claim1 claim1_fields(1) s claim1_flagged_fields(3)]
  show ?thesis
    by (intro conjI)
      (rule world1_claim1 claim1_fields(1) s claim1_flagged_fields(3)
        t [THEN conjunct1] t [THEN conjunct2, THEN conjunct1]
        t [THEN conjunct2, THEN conjunct2, THEN conjunct1]
        t [THEN conjunct2, THEN conjunct2, THEN conjunct2, THEN conjunct1]
        claim1_flagged_fields(1))+
qed

text \<open>C4 as the specification words it fails on a claim that was screened as fraudulent
  and then set back to \<open>Pending\<close> by an administrator's \<open>update\<close>: \<open>processClaim\<close>
  returns at line 228 and the claim ends the call \<open>Pending\<close>, not \<open>Flagged\<close>.\<close>

theorem processClaim_fraudulent_counterexample:
  "findOne 1 world1_reopened = Some claim1_reopened
   \<and> status claim1_reopened = PENDING
   \<and> isFraudulent claim1_reopened \<and> fraudCheckCompleted claim1_reopened
   \<and> processClaim env_ok 1 world1_reopened = (Inr None, world1_reopened)
   \<and> findOne 1 (snd (processClaim env_ok 1 world1_reopened)) = Some claim1_reopened
   \<and> status claim1_reopened \<noteq> FLAGGED"
proof -
  have p: "processClaim env_ok 1 world1_reopened = (Inr None, world1_reopened)"
    using processClaim_pending [OF world1_reopened_claim claim1_reopened_fields(1), of env_ok]
    by (simp add: screen_and_reload_done claim1_reopened_fields)
  have f: "findOne 1 (snd (processClaim env_ok 1 world1_reopened)) = Some claim1_reopened"
    unfolding p using world1_reopened_claim by simp
  have n: "status claim1_reopened \<noteq> FLAGGED"
    by (simp add: claim1_reopened_fields)
  show ?thesis
    by (intro conjI)
      (rule world1_reopened_claim claim1_reopened_fields(1) claim1_reopened_fields(3)
        claim1_reopened_fields(2) p f n)+
qed

subsection \<open>getClaimStats\<close>

text \<open>C9: for every repository, \<open>getClaimStats\<close> returns the number of claims of each
  status, the number of fraudulent claims, the number of claims whose
  \<open>fraudCheckCompleted\<close> is true, and \<open>fraudCheckPending\<close> equal to the total minus that
  last number, which is the number of claims not yet screened.\<close>

theorem getClaimStats_counts:
  "st_total (getClaimStats w) = length (claims w)
   \<and> st_pending (getClaimStats w) = length (filter (\<lambda>c. status c = PENDING) (claims w))
   \<and> st_approved (getClaimStats w) = length (filter (\<lambda>c. status c = APPROVED) (claims w))
   \<and> st_rejected (getClaimStats w) = length (filter (\<lambda>c. status c = REJECTED) (claims w))
   \<and> st_flagged (getClaimStats w) = length (filter (\<lambda>c. status c = FLAGGED) (claims w))
   \<and> st_fraudulent (getClaimStats w) = length (filter isFraudulent (claims w))
   \<and> st_fraudCheckCompleted (getClaimStats w)
        = length (filter fraudCheckCompleted (claims w))
   \<and> st_fraudCheckPending (getClaimStats w)
        = int (st_total (getClaimStats w)) - int (st_fraudCheckCompleted (getClaimStats w))
   \<and> st_fraudCheckPending (getClaimStats w)
        = int (length (filter (\<lambda>c. \<not> fraudCheckCompleted c) (claims w)))"
proof -
  have "length (filter fraudCheckCompleted (claims w))
      + length (filter (\<lambda>c. \<not> fraudCheckCompleted c) (claims w)) = length (claims w)"
    by (rule sum_length_filter_compl)
  then show ?thesis
    by (simp add: getClaimStats_def count_where_def Let_def)
qed

subsection \<open>getFraudDetectionStatus\<close>

text \<open>C10: \<open>getFraudDetectionStatus\<close> returns a status for every fraud detection service
  and never throws: without a \<^verbatim>\<open>getServiceStatus\<close> method the status is healthy with
  the default message; when the method throws, the status is unhealthy with the error's
  message; otherwise it is the status the method returned.\<close>

theorem getFraudDetectionStatus_total:
  "(\<exists>s. getFraudDetectionStatus env = Inr s)
   \<and> (getServiceStatus env = None \<longrightarrow>
        getFraudDetectionStatus env
          = Inr \<lparr>healthy = True,
                 status_message = Some ''Service status check not implemented''\<rparr>)
   \<and> (\<forall>e. getServiceStatus env = Some (Inl e) \<longrightarrow>
        getFraudDetectionStatus env
          = Inr \<lparr>healthy = False, status_message = Some (message e)\<rparr>)
   \<and> (\<forall>s. getServiceStatus env = Some (Inr s) \<longrightarrow> getFraudDetectionStatus env = Inr s)"
  by (simp add: getFraudDetectionStatus_def split: option.splits sum.splits)

theorem getFraudDetectionStatus_total_witness:
  "getServiceStatus env_ok = None
   \<and> getFraudDetectionStatus env_ok
        = Inr \<lparr>healthy = True,
               status_message = Some ''Service status check not implemented''\<rparr>
   \<and> getServiceStatus env_no_screener = Some (Inl (Error ''screener unavailable''))
   \<and> getFraudDetectionStatus env_no_screener
        = Inr \<lparr>healthy = False, status_message = Some ''screener unavailable''\<rparr>"
proof -
  have a: "getServiceStatus env_ok = None"
    by simp
  have b: "getServiceStatus env_no_screener = Some (Inl (Error ''screener unavailable''))"
    by (simp add: env_no_screener_def)
  note t1 = getFraudDetectionStatus_total [THEN conjunct2, THEN conjunct1, rule_format, OF a]
  note t2 = getFraudDetectionStatus_total
    [THEN conjunct2, THEN conjunct2, THEN conjunct1, rule_format, OF b]
  have c: "getFraudDetectionStatus env_no_screener
        = Inr \<lparr>healthy = False, status_message = Some ''screener unavailable''\<rparr>"
    using t2 by simp
  show ?thesis
    by (intro conjI) (rule a b t1 c)+
qed

subsection \<open>Notifications\<close>

lemma runFraudDetection_notifier [simp]:
  "runFraudDetection (env\<lparr>sendClaimProcessingNotification := f\<rparr>) claimId w
     = runFraudDetection env claimId w"
  by (simp add: runFraudDetection_def Let_def split: option.splits sum.splits)

lemma screen_and_reload_notifier [simp]:
  "screen_and_reload (env\<lparr>sendClaimProcessingNotification := f\<rparr>) claimId claim w
     = screen_and_reload env claimId claim w"
  by (simp add: screen_and_reload_def)

lemma verify_and_save_notifier:
  "verify_and_save (env\<lparr>sendClaimProcessingNotification := f\<rparr>) claim w
     = verify_and_save env claim w"
  by (simp add: verify_and_save_def Let_def split: sum.splits option.splits)

lemma verify_and_save_result: "fst (verify_and_save env claim w) = Inr r \<Longrightarrow> r = None"
  by (auto simp: verify_and_save_def Let_def split: sum.splits option.splits)

lemma processClaim_result: "fst (processClaim env claimId w) = Inr r \<Longrightarrow> r = None"
  by (auto simp: processClaim_def dest: verify_and_save_result
      split: sum.splits option.splits if_splits prod.splits)

lemma processClaim_notifier:
  "processClaim (env\<lparr>sendClaimProcessingNotification := f\<rparr>) claimId w
     = processClaim env claimId w"
  by (simp add: processClaim_def verify_and_save_notifier
      split: option.splits sum.splits prod.splits)

lemma create_notifier:
  "create (env\<lparr>sendClaimSubmittedNotification := f\<rparr>) dto uid w = create env dto uid w"
  by (simp add: create_def Let_def split: sum.splits option.splits)

lemma update_notifier:
  assumes "findOne i w = Some claim" "claim_user w claim = Some user"
  shows "update (env\<lparr>sendClaimStatusNotification := (\<lambda>n. Inr ())\<rparr>) i dto uid isAdmin w
     = update env i dto uid isAdmin w"
  using assms by (simp add: update_def Let_def split: sum.splits option.splits)

text \<open>C8, as the code has it: a failure thrown by the notifier changes neither the outcome
  nor the world of \<open>create\<close>, of \<open>processClaim\<close>, or of \<open>update\<close> on a claim whose user is
  loaded: each is equal to the run in which the notification succeeds. \<open>create\<close> always
  returns its response; \<open>processClaim\<close>, when it does not throw, returns no value (the
  updated claim is saved, not returned).\<close>

theorem notifier_failure_isolated:
  "create env createDto uid w
     = create (env\<lparr>sendClaimSubmittedNotification := (\<lambda>c u. Inr ())\<rparr>) createDto uid w
   \<and> (\<exists>response. fst (create env createDto uid w) = Inr response)
   \<and> processClaim env claimId w
     = processClaim (env\<lparr>sendClaimProcessingNotification := (\<lambda>c u v. Inr ())\<rparr>) claimId w
   \<and> (\<forall>r. fst (processClaim env claimId w) = Inr r \<longrightarrow> r = None)
   \<and> (\<forall>claim user. findOne claimId w = Some claim \<and> claim_user w claim = Some user \<longrightarrow>
        update env claimId updateDto adminId isAdmin w
          = update (env\<lparr>sendClaimStatusNotification := (\<lambda>n. Inr ())\<rparr>)
              claimId updateDto adminId isAdmin w)"
proof (intro conjI allI impI)
  show "create env createDto uid w
     = create (env\<lparr>sendClaimSubmittedNotification := (\<lambda>c u. Inr ())\<rparr>) createDto uid w"
    by (simp add: create_notifier)
  show "\<exists>response. fst (create env createDto uid w) = Inr response"
    by (simp add: create_def Let_def)
  show "processClaim env claimId w
     = processClaim (env\<lparr>sendClaimProcessingNotification := (\<lambda>c u v. Inr ())\<rparr>) claimId w"
    by (simp add: processClaim_notifier)
next
  fix r
  assume "fst (processClaim env claimId w) = Inr r"
  then show "r = None" by (rule processClaim_result)
next
  fix claim user
  assume "findOne claimId w = Some claim \<and> claim_user w claim = Some user"
  then show "update env claimId updateDto adminId isAdmin w
          = update (env\<lparr>sendClaimStatusNotification := (\<lambda>n. Inr ())\<rparr>)
              claimId updateDto adminId isAdmin w"
    by (simp add: update_notifier)
qed

lemma world1_flagged_claim:
  "findOne 1 world1_flagged = Some claim1_flagged"
  "claim_user world1_flagged claim1_flagged = Some alice"
  by (simp_all add: findOne_def claim_user_def world1_flagged_claims claim1_flagged_fields
      world1_def world0_def)

lemma update_status_change:
  assumes "findOne i w = Some claim" "upd_status dto = Some s" "status claim \<noteq> s"
  shows "update env i dto uid True w =
    (let updatedClaim = assign_dto claim dto;
         n = \<lparr>sn_claim = updatedClaim, sn_user = claim_user w claim,
              previousStatus = status claim, newStatus = s, remarks = update_remarks dto\<rparr>;
         w2 = called (ClaimStatusNotification n) (save updatedClaim w)
     in case sendClaimStatusNotification env n of
          Inr u \<Rightarrow> (Inr (ClaimResponseDto updatedClaim), w2)
        | Inl error \<Rightarrow>
            (case claim_user w claim of
               None \<Rightarrow> (Inl (TypeError ''Cannot read properties of null (reading 'id')''), w2)
             | Some user \<Rightarrow> (Inr (ClaimResponseDto updatedClaim), w2)))"
  using assms by (simp add: update_def Let_def)

theorem notifier_failure_isolated_witness:
  "findOne 1 world1_flagged = Some claim1_flagged
   \<and> claim_user world1_flagged claim1_flagged = Some alice
   \<and> update env_no_notifier 1 to_pending None True world1_flagged
        = update (env_no_notifier\<lparr>sendClaimStatusNotification := (\<lambda>n. Inr ())\<rparr>)
            1 to_pending None True world1_flagged
   \<and> fst (update env_no_notifier 1 to_pending None True world1_flagged)
        = Inr (ClaimResponseDto claim1_reopened)
   \<and> create env_no_notifier water_damage ''u1'' world0
        = create (env_no_notifier\<lparr>sendClaimSubmittedNotification := (\<lambda>c u. Inr ())\<rparr>)
            water_damage ''u1'' world0
   \<and> processClaim env_no_notifier 1 world1
        = processClaim (env_no_notifier\<lparr>sendClaimProcessingNotification := (\<lambda>c u v. Inr ())\<rparr>)
            1 world1"
proof -
  note t = notifier_failure_isolated
  have h: "findOne 1 world1_flagged = Some claim1_flagged
      \<and> claim_user world1_flagged claim1_flagged = Some alice"
    by (intro conjI) (rule world1_flagged_claim)+
  note u = t [THEN conjunct2, THEN conjunct2, THEN conjunct2, THEN conjunct2, rule_format, OF h]
  have r: "fst (update env_no_notifier 1 to_pending None True world1_flagged)
        = Inr (ClaimResponseDto claim1_reopened)"
    using update_status_change [OF world1_flagged_claim(1), of to_pending PENDING env_no_notifier None]
      world1_flagged_claim(2)
    by (simp add: to_pending_def claim1_flagged_fields Let_def assign_dto_def
        claim1_reopened_def)
  show ?thesis
    by (intro conjI)
      (rule world1_flagged_claim u r t [THEN conjunct1]
        t [THEN conjunct2, THEN conjunct2, THEN conjunct1])+
qed

text \<open>C8 as the specification words it fails in its last part: with the notifier down,
  \<open>processClaim\<close> on the claim of \<open>world1\<close> saves the approved claim and returns normally,
  but what it returns is no value, not the updated claim.\<close>

theorem processClaim_returns_claim_counterexample:
  "sendClaimProcessingNotification env_no_notifier claim1_approved alice ''approved''
      = Inl (Error ''smtp down'')
   \<and> fst (processClaim env_no_notifier 1 world1) = Inr None
   \<and> findOne 1 (snd (processClaim env_no_notifier 1 world1)) = Some claim1_approved
   \<and> fst (processClaim env_no_notifier 1 world1) \<noteq> Inr (Some claim1_approved)"
proof -
  have s: "screen_and_reload env_no_notifier 1 claim1 world1
      = (Inr claim1_screened, world1_screened)"
    by (rule world1_screen_and_reload) simp_all
  have p: "processClaim env_no_notifier 1 world1
      = verify_and_save env_no_notifier claim1_screened world1_screened"
    using processClaim_pending [OF world1_claim1 claim1_fields(1), of env_no_notifier] s
    by (simp add: claim1_screened_fields)
  have v: "verifyClaim env_no_notifier (claim_id claim1_screened) (description claim1_screened)
      = Inr ''approved''"
    by simp
  have a: "fst (processClaim env_no_notifier 1 world1) = Inr None"
    unfolding p by (rule verify_and_save_verdict(1) [OF v])
  have b: "findOne 1 (snd (processClaim env_no_notifier 1 world1)) = Some claim1_approved"
    unfolding p using verify_and_save_verdict(2) [OF v, of world1_screened]
    by (simp add: claim1_screened_fields claim1_approved_def verdict_status_def)
  have c: "fst (processClaim env_no_notifier 1 world1) \<noteq> Inr (Some claim1_approved)"
    unfolding a by simp
  have n: "sendClaimProcessingNotification env_no_notifier claim1_approved alice ''approved''
      = Inl (Error ''smtp down'')"
    by simp
  show ?thesis
    by (intro conjI) (rule n a b c)+
qed

text \<open>In \<open>update\<close> the handler of a failed notification reads
  \<^verbatim>\<open>previousUser.id\<close>. On a claim whose user is not loaded the handler itself throws, after
  the claim has been saved; \<open>processClaim\<close> guards the same read with \<^verbatim>\<open>if (claim.user)\<close>.\<close>

lemma update_handler_throws_without_user:
  "claim_user world1_no_user claim1_flagged = None
   \<and> fst (update env_no_notifier 1 to_pending None True world1_no_user)
        = Inl (TypeError ''Cannot read properties of null (reading 'id')'')
   \<and> findOne 1 (snd (update env_no_notifier 1 to_pending None True world1_no_user))
        = Some claim1_reopened"
proof -
  have f: "findOne 1 world1_no_user = Some claim1_flagged"
    using world1_flagged_claim(1) by (simp add: findOne_def world1_no_user_def)
  have u: "claim_user world1_no_user claim1_flagged = None"
    by (simp add: claim_user_def world1_no_user_def)
  show ?thesis
    using update_status_change [OF f, of to_pending PENDING env_no_notifier None] u
    by (simp add: to_pending_def claim1_flagged_fields Let_def assign_dto_def
        claim1_reopened_def)
qed

subsection \<open>The status Flagged\<close>

lemma world_ok_called [simp]: "world_ok (called e w) = world_ok w"
  by (simp add: world_ok_def)

lemma world_ok_save: "world_ok w \<Longrightarrow> claim_ok c \<Longrightarrow> world_ok (save c w)"
  using claims_save [of c w] by (auto simp: world_ok_def list_all_iff)

lemma world_ok_findOne: "world_ok w \<Longrightarrow> findOne i w = Some c \<Longrightarrow> claim_ok c"
  by (auto simp: world_ok_def list_all_iff dest: findOne_in_claims)

lemma claim_ok_screened:
  "claim_ok c \<Longrightarrow> \<not> fraudCheckCompleted c \<Longrightarrow> claim_ok (apply_fraud_result t r c)"
  by (auto simp: claim_ok_def split: if_splits)

lemma claim_ok_screener_failed:
  "claim_ok c \<Longrightarrow> \<not> fraudCheckCompleted c \<Longrightarrow> claim_ok (c\<lparr>fraudCheckCompleted := True\<rparr>)"
  by (auto simp: claim_ok_def split: if_splits)

lemma verdict_status_not_flagged [simp]: "verdict_status v \<noteq> FLAGGED"
  by (simp add: verdict_status_def)

lemma claim_ok_verdict:
  "\<not> isFraudulent c \<Longrightarrow> claim_ok (c\<lparr>status := verdict_status v, oracleData := d\<rparr>)"
  by (simp add: claim_ok_def)

lemma world_ok_runFraudDetection:
  assumes "world_ok w"
  shows "world_ok (snd (runFraudDetection env claimId w))"
proof (cases "findOne claimId w")
  case None
  with assms show ?thesis by (simp add: runFraudDetection_missing)
next
  case (Some c)
  note ok = world_ok_findOne [OF assms Some]
  show ?thesis
  proof (cases "fraudCheckCompleted c")
    case True
    with assms Some show ?thesis by (simp add: runFraudDetection_noop)
  next
    case False
    show ?thesis
    proof (cases "detectFraud env c")
      case (Inl e)
      show ?thesis
        using assms claim_ok_screener_failed [OF ok False]
        by (simp add: runFraudDetection_failure [OF Some False Inl] world_ok_save)
    next
      case (Inr r)
      show ?thesis
        using assms claim_ok_screened [OF ok False]
        by (simp add: runFraudDetection_success [OF Some False Inr] world_ok_save)
    qed
  qed
qed

lemma world_ok_runScheduled: "world_ok w \<Longrightarrow> world_ok (runScheduled env w)"
proof (cases "scheduled w")
  case Nil
  assume "world_ok w"
  with Nil show ?thesis by (simp add: runScheduled_def)
next
  case (Cons i rest)
  assume "world_ok w"
  then have "world_ok (w\<lparr>scheduled := rest\<rparr>)" by (simp add: world_ok_def)
  then have "world_ok (snd (runFraudDetection env i (w\<lparr>scheduled := rest\<rparr>)))"
    by (rule world_ok_runFraudDetection)
  with Cons show ?thesis by (simp add: runScheduled_def)
qed

lemma claim_ok_new: "claim_ok ((new_claim dto uid)\<lparr>claim_id := n\<rparr>)"
  by (simp add: claim_ok_def new_claim_def)

lemma create_claims:
  "claims (snd (create env dto uid w)) = upsert ((new_claim dto uid)\<lparr>claim_id := next_id w\<rparr>) (claims w)"
  by (simp add: create_def Let_def runFraudDetectionAsync_def save_def
      split: sum.splits option.splits)

lemma world_ok_create: "world_ok w \<Longrightarrow> world_ok (snd (create env dto uid w))"
  using set_upsert [of "(new_claim dto uid)\<lparr>claim_id := next_id w\<rparr>" "claims w"]
    claim_ok_new [of "next_id w" dto uid]
  by (auto simp: world_ok_def list_all_iff create_claims)

lemma verify_and_save_claims:
  "x \<in> set (claims (snd (verify_and_save env c w))) \<Longrightarrow>
     x \<in> set (claims w) \<or> (\<exists>v d. x = c\<lparr>status := verdict_status v, oracleData := d\<rparr>)"
  using claims_save [of _ "called (VerifyClaim (claim_id c) (description c)) w"]
  by (fastforce simp: verify_and_save_def Let_def split: sum.splits option.splits)

lemma world_ok_verify_and_save:
  assumes "world_ok w" "\<not> isFraudulent c"
  shows "world_ok (snd (verify_and_save env c w))"
  using assms verify_and_save_claims [of _ env c w] claim_ok_verdict [OF assms(2)]
  by (fastforce simp: world_ok_def list_all_iff)

lemma world_ok_screen_and_reload:
  assumes "world_ok w"
  shows "world_ok (snd (screen_and_reload env claimId claim w))"
  using assms world_ok_runFraudDetection [OF assms, of env claimId]
  by (auto simp: screen_and_reload_def split: prod.splits sum.splits option.splits)

lemma world_ok_processClaim:
  assumes "world_ok w"
  shows "world_ok (snd (processClaim env claimId w))"
proof (cases "findOne claimId w")
  case None
  with assms show ?thesis by (simp add: processClaim_def)
next
  case (Some c)
  show ?thesis
  proof (cases "status c = PENDING")
    case False
    with assms Some show ?thesis by (simp add: processClaim_def)
  next
    case True
    obtain res w' where s: "screen_and_reload env claimId c w = (res, w')"
      by (cases "screen_and_reload env claimId c w")
    have ok': "world_ok w'"
      using world_ok_screen_and_reload [OF assms, of env claimId c] s by simp
    show ?thesis
    proof (cases res)
      case (Inl e)
      with s ok' show ?thesis by (simp add: processClaim_pending [OF Some True])
    next
      case (Inr c')
      with s ok' world_ok_verify_and_save [OF ok', of c' env]
      show ?thesis by (simp add: processClaim_pending [OF Some True])
    qed
  qed
qed

lemma reachable_world_ok: "reachable w \<Longrightarrow> world_ok w"
proof (induction rule: reachable.induct)
  case (initial us n)
  show ?case by (simp add: world_ok_def)
next
  case (by_create w env dto uid)
  then show ?case by (simp add: world_ok_create)
next
  case (by_runFraudDetection w env claimId)
  then show ?case by (simp add: world_ok_runFraudDetection)
next
  case (by_runScheduled w env)
  then show ?case by (simp add: world_ok_runScheduled)
next
  case (by_processClaim w env claimId)
  then show ?case by (simp add: world_ok_processClaim)
qed

lemma create_flagged:
  assumes "x \<in> set (claims (snd (create env dto uid w)))" "status x = FLAGGED"
  shows "x \<in> set (claims w)"
proof -
  from assms(1) have "x = (new_claim dto uid)\<lparr>claim_id := next_id w\<rparr> \<or> x \<in> set (claims w)"
    using set_upsert [of "(new_claim dto uid)\<lparr>claim_id := next_id w\<rparr>" "claims w"]
    by (auto simp: create_claims)
  with assms(2) show ?thesis by (auto simp: new_claim_def)
qed

lemma processClaim_flagged:
  assumes "x \<in> set (claims (snd (processClaim env claimId w)))" "status x = FLAGGED"
  shows "x \<in> set (claims w)
    \<or> (\<exists>c r. findOne claimId w = Some c \<and> \<not> fraudCheckCompleted c
          \<and> detectFraud env c = Inr r \<and> fr_isFraudulent r
          \<and> x = apply_fraud_result (now env) r c)"
proof (cases "findOne claimId w")
  case None
  with assms(1) show ?thesis by (simp add: processClaim_def)
next
  case (Some c)
  show ?thesis
  proof (cases "status c = PENDING")
    case False
    with assms(1) Some show ?thesis by (simp add: processClaim_def)
  next
    case True
    note p = processClaim_pending [OF Some True, of env]
    show ?thesis
    proof (cases "fraudCheckCompleted c")
      case completed: True
      show ?thesis
      proof (cases "isFraudulent c")
        case True
        with assms(1) show ?thesis by (simp add: p screen_and_reload_done [OF completed])
      next
        case False
        with assms(1) have "x \<in> set (claims (snd (verify_and_save env c w)))"
          by (simp add: p screen_and_reload_done [OF completed])
        from verify_and_save_claims [OF this] assms(2) show ?thesis by auto
      qed
    next
      case todo: False
      show ?thesis
      proof (cases "detectFraud env c")
        case (Inl e)
        let ?c = "c\<lparr>fraudCheckCompleted := True\<rparr>"
        from assms(1) have "x \<in> set (claims (save ?c (called (DetectFraud c) w)))"
          by (simp add: p screen_and_reload_failure [OF Some todo Inl])
        with claims_save [of ?c "called (DetectFraud c) w"] have "x = ?c \<or> x \<in> set (claims w)"
          by auto
        with assms(2) True show ?thesis by auto
      next
        case (Inr r)
        let ?c = "apply_fraud_result (now env) r c"
        let ?w = "save ?c (called (DetectFraud c) w)"
        note s = screen_and_reload_success [OF Some todo Inr]
        have w: "y \<in> set (claims ?w) \<Longrightarrow> y = ?c \<or> y \<in> set (claims w)" for y
          using claims_save [of ?c "called (DetectFraud c) w"] by auto
        show ?thesis
        proof (cases "fr_isFraudulent r")
          case True
          with assms(1) have "x \<in> set (claims ?w)" by (simp add: p s)
          from w [OF this] Some todo Inr True show ?thesis by auto
        next
          case False
          with assms(1) have "x \<in> set (claims (snd (verify_and_save env ?c ?w)))"
            by (simp add: p s)
          from verify_and_save_claims [OF this] assms(2) have "x \<in> set (claims ?w)" by auto
          from w [OF this] assms(2) False \<open>status c = PENDING\<close> show ?thesis by auto
        qed
      qed
    qed
  qed
qed

text \<open>C1: in every world reached from an empty repository through \<open>create\<close>,
  \<open>runFraudDetection\<close> (called directly or as the queued background task) and
  \<open>processClaim\<close>, a stored claim has the status \<open>Flagged\<close> if and only if \<open>isFraudulent\<close>
  and \<open>fraudCheckCompleted\<close> are both true. Only the screening sets \<open>Flagged\<close>: a claim
  that is \<open>Flagged\<close> after \<open>create\<close> was stored as it is before, and a claim that is
  \<open>Flagged\<close> after \<open>processClaim\<close> was stored as it is before or is the claim written by
  the screening of this call, whose screener reported fraud.\<close>

theorem flagged_iff_fraudulent:
  assumes "reachable w"
  shows "(\<forall>c \<in> set (claims w).
            (status c = FLAGGED) = (isFraudulent c \<and> fraudCheckCompleted c))
    \<and> (\<forall>x \<in> set (claims (snd (create env dto uid w))).
          status x = FLAGGED \<longrightarrow> x \<in> set (claims w))
    \<and> (\<forall>x \<in> set (claims (snd (processClaim env claimId w))).
          status x = FLAGGED \<longrightarrow>
            x \<in> set (claims w)
            \<or> (\<exists>c r. findOne claimId w = Some c \<and> \<not> fraudCheckCompleted c
                  \<and> detectFraud env c = Inr r \<and> fr_isFraudulent r
                  \<and> x = apply_fraud_result (now env) r c))"
proof (intro conjI ballI impI)
  fix c
  assume "c \<in> set (claims w)"
  with reachable_world_ok [OF assms] have "claim_ok c"
    by (simp add: world_ok_def list_all_iff)
  then show "(status c = FLAGGED) = (isFraudulent c \<and> fraudCheckCompleted c)"
    by (auto simp: claim_ok_def split: if_splits)
next
  fix x
  assume "x \<in> set (claims (snd (create env dto uid w)))" "status x = FLAGGED"
  then show "x \<in> set (claims w)" by (rule create_flagged)
next
  fix x
  assume "x \<in> set (claims (snd (processClaim env claimId w)))" "status x = FLAGGED"
  then show "x \<in> set (claims w)
            \<or> (\<exists>c r. findOne claimId w = Some c \<and> \<not> fraudCheckCompleted c
                  \<and> detectFraud env c = Inr r \<and> fr_isFraudulent r
                  \<and> x = apply_fraud_result (now env) r c)"
    by (rule processClaim_flagged)
qed

theorem flagged_iff_fraudulent_witness:
  "reachable world1_flagged
   \<and> claim1_flagged \<in> set (claims world1_flagged)
   \<and> (status claim1_flagged = FLAGGED)
        = (isFraudulent claim1_flagged \<and> fraudCheckCompleted claim1_flagged)
   \<and> status claim1_flagged = FLAGGED
   \<and> reachable (snd (create env_ok water_damage ''u1'' world0))
   \<and> claim1 \<in> set (claims (snd (create env_ok water_damage ''u1'' world0)))
   \<and> (status claim1 = FLAGGED) = (isFraudulent claim1 \<and> fraudCheckCompleted claim1)
   \<and> status claim1 = PENDING"
proof -
  have r0: "reachable world0"
    unfolding world0_def by (rule reachable.initial)
  have r1: "reachable (snd (create env_ok water_damage ''u1'' world0))"
    using r0 by (rule reachable.by_create)
  have r2: "reachable world1_flagged"
    unfolding world1_flagged_def using r1 by (rule reachable.by_runScheduled)
  have m1: "claim1 \<in> set (claims (snd (create env_ok water_damage ''u1'' world0)))"
    by (simp add: created_world1)
  have m2: "claim1_flagged \<in> set (claims world1_flagged)"
    by (simp add: world1_flagged_claims)
  note t1 = flagged_iff_fraudulent [OF r1, THEN conjunct1, THEN bspec, OF m1]
  note t2 = flagged_iff_fraudulent [OF r2, THEN conjunct1, THEN bspec, OF m2]
  show ?thesis
    by (intro conjI)
      (rule r2 m2 t2 claim1_flagged_fields(1) r1 m1 t1 claim1_fields(1))+
qed

end
